theory Spec2Isabelle
  imports Main "HOL-Library.Word"
begin

unbundle bit_operations_syntax

section \<open>License activation (activate.py)\<close>

text \<open>
  The script runs once per activation request. It reads its request from environment
  variables, validates the master key, loads \<^verbatim>\<open>licenses.json\<close>, decides, and on
  the one accepting path rewrites \<^verbatim>\<open>licenses.json\<close>; every path that ends normally
  reports through \<^verbatim>\<open>write_result\<close>.

  Conventions of the embedding:
  \<^item> Python \<^verbatim>\<open>str\<close> values are \<^typ>\<open>string\<close>. The string methods below coincide
    with Python's on ASCII text (code points below 128), where UTF-8 encoding is the
    identity on code points. Text outside ASCII is not covered.
  \<^item> \<^verbatim>\<open>hashlib.sha256\<close> is SHA-256 itself (FIPS 180-4), on 32-bit words.
  \<^item> \<^verbatim>\<open>int(...)\<close> and \<^verbatim>\<open>json.load\<close> are library parsers; the embedding starts
    from their results, including the result "raises".
  \<^item> Files live in a tree of directories; paths are resolved as POSIX does, without
    symbolic links. Output to the terminal (\<^verbatim>\<open>print\<close>) is not modelled.
  \<^item> Every read of the clock is an input of its own.
\<close>

subsection \<open>String methods\<close>

text \<open>\<^verbatim>\<open>str.isspace\<close> on ASCII: TAB, LF, VT, FF, CR, FS, GS, RS, US and space.\<close>

definition isspace :: "char \<Rightarrow> bool" where
  "isspace c = ((of_char c :: nat) \<in> {9, 10, 11, 12, 13, 28, 29, 30, 31, 32})"

definition strip :: "string \<Rightarrow> string" where
  "strip s = rev (dropWhile isspace (rev (dropWhile isspace s)))"

definition ascii_lowercase :: string where
  "ascii_lowercase = ''abcdefghijklmnopqrstuvwxyz''"

definition ascii_uppercase :: string where
  "ascii_uppercase = ''ABCDEFGHIJKLMNOPQRSTUVWXYZ''"

definition lower_char :: "char \<Rightarrow> char" where
  "lower_char c =
     (case map_of (zip ascii_uppercase ascii_lowercase) c of Some l \<Rightarrow> l | None \<Rightarrow> c)"

definition upper_char :: "char \<Rightarrow> char" where
  "upper_char c =
     (case map_of (zip ascii_lowercase ascii_uppercase) c of Some u \<Rightarrow> u | None \<Rightarrow> c)"

definition lower :: "string \<Rightarrow> string" where
  "lower s = map lower_char s"

definition upper :: "string \<Rightarrow> string" where
  "upper s = map upper_char s"

text \<open>\<^verbatim>\<open>s.replace(old, new)\<close> for a one-character \<^verbatim>\<open>old\<close>.\<close>

definition replace :: "char \<Rightarrow> string \<Rightarrow> string \<Rightarrow> string" where
  "replace old new s = concat (map (\<lambda>c. if c = old then new else [c]) s)"

subsection \<open>SHA-256 (hashlib.sha256(...).hexdigest())\<close>

type_synonym byte = "8 word"
type_synonym w32 = "32 word"
type_synonym hstate = "w32 \<times> w32 \<times> w32 \<times> w32 \<times> w32 \<times> w32 \<times> w32 \<times> w32"

text \<open>The round constants of FIPS 180-4, section 4.2.2.\<close>

definition K256 :: "w32 list" where
  "K256 = [
    0x428A2F98, 0x71374491, 0xB5C0FBCF, 0xE9B5DBA5,
    0x3956C25B, 0x59F111F1, 0x923F82A4, 0xAB1C5ED5,
    0xD807AA98, 0x12835B01, 0x243185BE, 0x550C7DC3,
    0x72BE5D74, 0x80DEB1FE, 0x9BDC06A7, 0xC19BF174,
    0xE49B69C1, 0xEFBE4786, 0x0FC19DC6, 0x240CA1CC,
    0x2DE92C6F, 0x4A7484AA, 0x5CB0A9DC, 0x76F988DA,
    0x983E5152, 0xA831C66D, 0xB00327C8, 0xBF597FC7,
    0xC6E00BF3, 0xD5A79147, 0x06CA6351, 0x14292967,
    0x27B70A85, 0x2E1B2138, 0x4D2C6DFC, 0x53380D13,
    0x650A7354, 0x766A0ABB, 0x81C2C92E, 0x92722C85,
    0xA2BFE8A1, 0xA81A664B, 0xC24B8B70, 0xC76C51A3,
    0xD192E819, 0xD6990624, 0xF40E3585, 0x106AA070,
    0x19A4C116, 0x1E376C08, 0x2748774C, 0x34B0BCB5,
    0x391C0CB3, 0x4ED8AA4A, 0x5B9CCA4F, 0x682E6FF3,
    0x748F82EE, 0x78A5636F, 0x84C87814, 0x8CC70208,
    0x90BEFFFA, 0xA4506CEB, 0xBEF9A3F7, 0xC67178F2]"

definition H256 :: hstate where
  "H256 = (0x6a09e667, 0xbb67ae85, 0x3c6ef372, 0xa54ff53a,
           0x510e527f, 0x9b05688c, 0x1f83d9ab, 0x5be0cd19)"

text \<open>Rotation of a 32-bit word to the right by \<open>n\<close> places, \<open>0 < n < 32\<close>.\<close>

definition rotr :: "nat \<Rightarrow> w32 \<Rightarrow> w32" where
  "rotr n x = drop_bit n x OR push_bit (32 - n) x"

definition Ch :: "w32 \<Rightarrow> w32 \<Rightarrow> w32 \<Rightarrow> w32" where
  "Ch x y z = (x AND y) XOR (NOT x AND z)"

definition Maj :: "w32 \<Rightarrow> w32 \<Rightarrow> w32 \<Rightarrow> w32" where
  "Maj x y z = (x AND y) XOR (x AND z) XOR (y AND z)"

definition Sigma0 :: "w32 \<Rightarrow> w32" where
  "Sigma0 x = rotr 2 x XOR rotr 13 x XOR rotr 22 x"

definition Sigma1 :: "w32 \<Rightarrow> w32" where
  "Sigma1 x = rotr 6 x XOR rotr 11 x XOR rotr 25 x"

definition sigma0 :: "w32 \<Rightarrow> w32" where
  "sigma0 x = rotr 7 x XOR rotr 18 x XOR drop_bit 3 x"

definition sigma1 :: "w32 \<Rightarrow> w32" where
  "sigma1 x = rotr 17 x XOR rotr 19 x XOR drop_bit 10 x"

text \<open>
  Padding: the byte \<open>0x80\<close>, zero bytes up to 56 modulo 64, and the length of the message
  in bits as eight bytes, most significant first.
\<close>

definition length_bytes :: "64 word \<Rightarrow> byte list" where
  "length_bytes l =
     [ucast (drop_bit 56 l), ucast (drop_bit 48 l), ucast (drop_bit 40 l),
      ucast (drop_bit 32 l), ucast (drop_bit 24 l), ucast (drop_bit 16 l),
      ucast (drop_bit 8 l), ucast l]"

definition pad :: "byte list \<Rightarrow> byte list" where
  "pad m = m @ [0x80] @ replicate ((119 - length m mod 64) mod 64) 0
             @ length_bytes (word_of_nat (8 * length m))"

fun be_words :: "byte list \<Rightarrow> w32 list" where
  "be_words (b0 # b1 # b2 # b3 # bs) =
     (push_bit 24 (ucast b0) OR push_bit 16 (ucast b1) OR push_bit 8 (ucast b2) OR ucast b3)
       # be_words bs"
| "be_words _ = []"

fun sha_round :: "w32 \<times> w32 \<Rightarrow> hstate \<Rightarrow> hstate" where
  "sha_round (k, w) (a, b, c, d, e, f, g, h) =
     (let t1 = h + Sigma1 e + Ch e f g + k + w;
          t2 = Sigma0 a + Maj a b c
      in (t1 + t2, a, b, c, d + t1, e, f, g))"

text \<open>
  The 64 rounds of one block. \<open>ws\<close> is the window of the message schedule: the 16 words
  from the current one on; each round uses the first and appends the next,
  \<open>W\<^sub>t\<^sub>+\<^sub>1\<^sub>6 = \<sigma>\<^sub>1(W\<^sub>t\<^sub>+\<^sub>1\<^sub>4) + W\<^sub>t\<^sub>+\<^sub>9 + \<sigma>\<^sub>0(W\<^sub>t\<^sub>+\<^sub>1) + W\<^sub>t\<close>.
\<close>

fun rounds :: "w32 list \<Rightarrow> w32 list \<Rightarrow> hstate \<Rightarrow> hstate" where
  "rounds [] ws st = st"
| "rounds (k # ks) ws st =
     rounds ks (tl ws @ [sigma1 (ws ! 14) + ws ! 9 + sigma0 (ws ! 1) + ws ! 0])
       (sha_round (k, ws ! 0) st)"

fun add_state :: "hstate \<Rightarrow> hstate \<Rightarrow> hstate" where
  "add_state (a, b, c, d, e, f, g, h) (a', b', c', d', e', f', g', h') =
     (a + a', b + b', c + c', d + d', e + e', f + f', g + g', h + h')"

declare rounds.simps [simp del]

definition compress :: "hstate \<Rightarrow> byte list \<Rightarrow> hstate" where
  "compress st block = add_state st (rounds K256 (be_words block) st)"

fun blocks :: "byte list \<Rightarrow> byte list list" where
  "blocks bs = (if length bs < 64 then [] else take 64 bs # blocks (drop 64 bs))"

declare blocks.simps [simp del]

definition sha256 :: "byte list \<Rightarrow> hstate" where
  "sha256 m = foldl compress H256 (blocks (pad m))"

definition hexdigit :: "nat \<Rightarrow> char" where
  "hexdigit n = ''0123456789abcdef'' ! (n mod 16)"

definition hex32 :: "w32 \<Rightarrow> string" where
  "hex32 w =
     [hexdigit (unat (drop_bit 28 w)), hexdigit (unat (drop_bit 24 w)),
      hexdigit (unat (drop_bit 20 w)), hexdigit (unat (drop_bit 16 w)),
      hexdigit (unat (drop_bit 12 w)), hexdigit (unat (drop_bit 8 w)),
      hexdigit (unat (drop_bit 4 w)), hexdigit (unat w)]"

fun hexdigest :: "hstate \<Rightarrow> string" where
  "hexdigest (a, b, c, d, e, f, g, h) =
     hex32 a @ hex32 b @ hex32 c @ hex32 d @ hex32 e @ hex32 f @ hex32 g @ hex32 h"

text \<open>\<^verbatim>\<open>data.encode("utf-8")\<close> on ASCII text: one byte per character.\<close>

definition encode :: "string \<Rightarrow> byte list" where
  "encode s = map (\<lambda>c. word_of_nat (of_char c)) s"

definition sha256_hex :: "string \<Rightarrow> string" where
  "sha256_hex s = hexdigest (sha256 (encode s))"


subsection \<open>Data model of licenses.json and of the result file\<close>

text \<open>
  The ledger has the shape the script itself writes. \<^verbatim>\<open>machineName\<close> is optional
  because the script reads it with \<^verbatim>\<open>.get("machineName", "another computer")\<close>; every
  other key is read with \<^verbatim>\<open>[...]\<close> and is a field. A ledger document that lacks one
  of these keys is outside the model.
\<close>

record activation =
  machineId :: string
  machineName :: "string option"
  activatedAt :: string

record license_entry =
  email :: string
  masterKey :: string
  createdAt :: string
  isActive :: bool
  activations :: "activation list"

record license_db =
  version :: string
  lastUpdated :: string
  licenses :: "license_entry list"

record result =
  requestId :: string
  success :: bool
  message :: string
  activationToken :: string
  timestamp :: string

subsection \<open>The file system\<close>

text \<open>
  What a file holds: text that \<^verbatim>\<open>json.load\<close> rejects, a ledger document, or a result
  document (the two documents the script writes with \<^verbatim>\<open>json.dump\<close>).
\<close>

datatype content = Garbage | LedgerDoc license_db | ResultDoc result

datatype node = Dir | File content

text \<open>
  A path is the list of names from the root. The file system says what is at each path;
  the script runs in the directory \<open>cwd\<close>.
\<close>

type_synonym path = "string list"

record filesystem =
  nodes :: "path \<Rightarrow> node option"
  cwd :: path

text \<open>
  Uncaught exceptions: the process ends with a traceback and a non-zero exit status.
  \<open>OSError\<close> stands for the class and its subclasses (\<^verbatim>\<open>FileNotFoundError\<close>,
  \<^verbatim>\<open>NotADirectoryError\<close>, \<^verbatim>\<open>IsADirectoryError\<close>, \<^verbatim>\<open>FileExistsError\<close>, and the error
  for a name that is too long).
\<close>

datatype exn = ValueError | JSONDecodeError | KeyError | IndexError | OSError

text \<open>The limits of Linux on the length of one name and of a whole path.\<close>

definition NAME_MAX :: nat where
  "NAME_MAX = 255"

definition PATH_MAX :: nat where
  "PATH_MAX = 4096"

text \<open>The names of a path string, as \<^verbatim>\<open>p.split("/")\<close> gives them.\<close>

fun split_path :: "string \<Rightarrow> string list" where
  "split_path [] = [[]]"
| "split_path (c # cs) =
     (if c = CHR ''/'' then [] # split_path cs
      else (case split_path cs of [] \<Rightarrow> [[c]] | x # xs \<Rightarrow> (c # x) # xs))"

text \<open>
  Walking the directory names of a relative path, from directory \<open>d\<close>: an empty name
  and \<^verbatim>\<open>.\<close> stay, \<^verbatim>\<open>..\<close> goes to the parent (the root is its own parent), and any other
  name must be an existing directory.
\<close>

fun walk :: "(path \<Rightarrow> node option) \<Rightarrow> path \<Rightarrow> string list \<Rightarrow> exn + path" where
  "walk ns d [] = Inr d"
| "walk ns d (c # cs) =
     (if c = [] \<or> c = ''.'' then walk ns d cs
      else if c = ''..'' then walk ns (butlast d) cs
      else if NAME_MAX < length c then Inl OSError
      else (case ns (d @ [c]) of
              Some Dir \<Rightarrow> walk ns (d @ [c]) cs
            | _ \<Rightarrow> Inl OSError))"

text \<open>
  \<^verbatim>\<open>with open(p, "w") as f: json.dump(v, f, indent=2)\<close> for a relative path \<open>p\<close>: the
  file is created or replaced, and holds \<open>v\<close> afterwards.
\<close>

definition open_w :: "filesystem \<Rightarrow> string \<Rightarrow> content \<Rightarrow> exn + filesystem" where
  "open_w fs p v =
     (if PATH_MAX \<le> length p then Inl OSError
      else
        (case walk (nodes fs) (cwd fs) (butlast (split_path p)) of
           Inl e \<Rightarrow> Inl e
         | Inr d \<Rightarrow>
             let name = last (split_path p)
             in if name = [] \<or> name = ''.'' \<or> name = ''..'' \<or> NAME_MAX < length name
                then Inl OSError
                else (case nodes fs (d @ [name]) of
                        Some Dir \<Rightarrow> Inl OSError
                      | _ \<Rightarrow> Inr (fs\<lparr>nodes := (nodes fs)(d @ [name] \<mapsto> File v)\<rparr>))))"

text \<open>\<^verbatim>\<open>os.makedirs(name, exist_ok=True)\<close> for a single name in the working directory.\<close>

definition makedirs :: "filesystem \<Rightarrow> string \<Rightarrow> exn + filesystem" where
  "makedirs fs name =
     (case nodes fs (cwd fs @ [name]) of
        None \<Rightarrow> Inr (fs\<lparr>nodes := (nodes fs)(cwd fs @ [name] \<mapsto> Dir)\<rparr>)
      | Some Dir \<Rightarrow> Inr fs
      | Some (File c) \<Rightarrow> Inl OSError)"

definition LICENSES_FILE :: string where
  "LICENSES_FILE = ''licenses.json''"

text \<open>What is at \<^verbatim>\<open>licenses.json\<close> in the working directory.\<close>

definition ledger :: "filesystem \<Rightarrow> node option" where
  "ledger fs = nodes fs (cwd fs @ [LICENSES_FILE])"

subsection \<open>Outcomes\<close>

text \<open>The \<^verbatim>\<open>write_result(...); exit(0)\<close> sites of the script, and its last line.\<close>

datatype decision =
    MissingFields
  | ServerMisconfigured
  | InvalidCredential
  | AlreadyActive
  | LimitReached string
  | Activated

text \<open>
  A run ends at one of these sites, with the result document it has written, or in an
  uncaught exception.
\<close>

datatype outcome = Exited decision result | Raised exn

subsection \<open>Inputs\<close>

text \<open>
  The environment. A string variable that is unset reads as the empty string
  (\<^verbatim>\<open>os.environ.get(name, "")\<close>). \<open>MAX_ACTIVATIONS\<close> is the value of
  \<^verbatim>\<open>int(os.environ.get("MAX_ACTIVATIONS", "1"))\<close>: \<open>Some 1\<close> when unset, \<open>None\<close>
  when \<^verbatim>\<open>int\<close> raises.
\<close>

record environ =
  INPUT_EMAIL :: string
  INPUT_MASTERKEY :: string
  INPUT_MACHINEID :: string
  INPUT_MACHINENAME :: string
  INPUT_REQUESTID :: string
  ENCRYPTION_KEY :: string
  MAX_ACTIVATIONS :: "int option"

text \<open>
  The five places where the script calls \<^verbatim>\<open>datetime.now(timezone.utc).isoformat()\<close>:
  line 94 (fresh database), line 115 (new entry), line 160 (new activation), line 163
  (\<^verbatim>\<open>lastUpdated\<close>) and line 52 (result file).
\<close>

record clock =
  t_db_created :: string
  t_entry_created :: string
  t_activated :: string
  t_updated :: string
  t_result :: string

definition email_env :: "environ \<Rightarrow> string" where
  "email_env env = lower (strip (INPUT_EMAIL env))"

definition master_key :: "environ \<Rightarrow> string" where
  "master_key env = replace CHR ''-'' [] (upper (strip (INPUT_MASTERKEY env)))"

definition machine_id :: "environ \<Rightarrow> string" where
  "machine_id env = strip (INPUT_MACHINEID env)"

definition machine_name :: "environ \<Rightarrow> string" where
  "machine_name env = strip (INPUT_MACHINENAME env)"

definition request_id :: "environ \<Rightarrow> string" where
  "request_id env = strip (INPUT_REQUESTID env)"

definition encryption_key :: "environ \<Rightarrow> string" where
  "encryption_key env = ENCRYPTION_KEY env"

subsection \<open>The script\<close>

text \<open>\<^verbatim>\<open>generate_master_key\<close>; the global \<^verbatim>\<open>encryption_key\<close> is its first argument.\<close>

definition generate_master_key :: "string \<Rightarrow> string \<Rightarrow> string" where
  "generate_master_key enc_key email_input =
     (let data = email_input @ ''|lifetime|'' @ enc_key;
          hash_hex = sha256_hex data;
          key = upper (take 16 hash_hex)
      in key)"

text \<open>
  \<^verbatim>\<open>write_result\<close>: make sure the directory \<^verbatim>\<open>results\<close> exists, then write the result
  document to \<^verbatim>\<open>results/{request_id}.json\<close>. The request id is used as it is, so the
  path may lead out of \<^verbatim>\<open>results\<close>, and both steps can raise.
\<close>

definition write_result ::
  "environ \<Rightarrow> clock \<Rightarrow> bool \<Rightarrow> string \<Rightarrow> string \<Rightarrow> filesystem \<Rightarrow> (exn + result) \<times> filesystem"
  where
  "write_result env clk succ msg token fs =
     (case makedirs fs ''results'' of
        Inl e \<Rightarrow> (Inl e, fs)
      | Inr fs1 \<Rightarrow>
          let result = \<lparr>requestId = request_id env, success = succ, message = msg,
                        activationToken = token, timestamp = t_result clk\<rparr>
          in (case open_w fs1 (''results/'' @ request_id env @ ''.json'') (ResultDoc result) of
                Inl e \<Rightarrow> (Inl e, fs1)
              | Inr fs2 \<Rightarrow> (Inr result, fs2)))"

text \<open>
  A call of \<^verbatim>\<open>write_result\<close> that is the last thing the run does (it is followed by
  \<^verbatim>\<open>exit(0)\<close> or by the end of the script): the outcome names the site.
\<close>

definition report ::
  "environ \<Rightarrow> clock \<Rightarrow> decision \<Rightarrow> bool \<Rightarrow> string \<Rightarrow> string \<Rightarrow> filesystem
     \<Rightarrow> outcome \<times> filesystem" where
  "report env clk d succ msg token fs =
     (case write_result env clk succ msg token fs of
        (Inl e, fs') \<Rightarrow> (Raised e, fs')
      | (Inr r, fs') \<Rightarrow> (Exited d r, fs'))"

text \<open>\<^verbatim>\<open>str(n)\<close> for the integer in the limit message.\<close>

fun str_nat :: "nat \<Rightarrow> string" where
  "str_nat n =
     (if n < 10 then [''0123456789'' ! n]
      else str_nat (n div 10) @ [''0123456789'' ! (n mod 10)])"

declare str_nat.simps [simp del]

definition str_int :: "int \<Rightarrow> string" where
  "str_int i = (if i < 0 then CHR ''-'' # str_nat (nat (- i)) else str_nat (nat i))"

definition limit_message :: "string \<Rightarrow> int \<Rightarrow> string" where
  "limit_message occupied max_activations =
     ''This license is already activated on '' @ [CHR 0x22] @ occupied @ [CHR 0x22] @ ''. ''
     @ ''Maximum allowed: '' @ str_int max_activations @ '' computer(s). ''
     @ ''Contact support to transfer your license.''"

text \<open>
  PASO 2: load \<^verbatim>\<open>licenses.json\<close>, or start from an empty database when nothing is at
  that path. A directory there makes \<^verbatim>\<open>open\<close> raise. A result document there parses,
  and the script raises \<^verbatim>\<open>KeyError\<close> at \<^verbatim>\<open>db["licenses"]\<close> (line 105), before it has
  written anything.
\<close>

definition load_licenses :: "clock \<Rightarrow> filesystem \<Rightarrow> exn + license_db" where
  "load_licenses clk fs =
     (case ledger fs of
        None \<Rightarrow> Inr \<lparr>version = ''1.0'', lastUpdated = t_db_created clk, licenses = []\<rparr>
      | Some Dir \<Rightarrow> Inl OSError
      | Some (File Garbage) \<Rightarrow> Inl JSONDecodeError
      | Some (File (ResultDoc r)) \<Rightarrow> Inl KeyError
      | Some (File (LedgerDoc db)) \<Rightarrow> Inr db)"

text \<open>
  PASO 3, the search loop: the position of the first entry whose \<^verbatim>\<open>email\<close> equals
  the request's. The script holds a reference to that entry; the model holds its index.
\<close>

fun find_entry :: "license_entry list \<Rightarrow> string \<Rightarrow> nat option" where
  "find_entry [] e = None"
| "find_entry (lic # lics) e =
     (if email lic = e then Some 0 else map_option Suc (find_entry lics e))"

text \<open>PASO 3: the database after the optional append, and where the request's entry is.\<close>

definition find_or_create :: "environ \<Rightarrow> clock \<Rightarrow> license_db \<Rightarrow> license_db \<times> nat" where
  "find_or_create env clk db =
     (case find_entry (licenses db) (email_env env) of
        Some i \<Rightarrow> (db, i)
      | None \<Rightarrow>
          (db\<lparr>licenses := licenses db @
                 [\<lparr>email = email_env env, masterKey = master_key env,
                   createdAt = t_entry_created clk, isActive = True, activations = []\<rparr>]\<rparr>,
           length (licenses db)))"

text \<open>
  PASO 4 to PASO 8 on the loaded database. PASO 7 is the only place where the script
  itself opens \<^verbatim>\<open>licenses.json\<close> for writing.
\<close>

definition activate ::
  "environ \<Rightarrow> clock \<Rightarrow> int \<Rightarrow> license_db \<Rightarrow> filesystem \<Rightarrow> outcome \<times> filesystem" where
  "activate env clk max_activations db0 fs =
     (let (db, i) = find_or_create env clk db0;
          license_entry = licenses db ! i;
          already_active_here =
            list_ex (\<lambda>act. machineId act = machine_id env) (activations license_entry)
      in if already_active_here then
           report env clk AlreadyActive True ''License is active on this computer.''
             (sha256_hex (email_env env @ ''|'' @ machine_id env @ ''|activated|''
                            @ encryption_key env))
             fs
         else
           let active_count = int (length (activations license_entry))
           in if active_count \<ge> max_activations then
                (case activations license_entry of
                   [] \<Rightarrow> (Raised IndexError, fs)
                 | act0 # _ \<Rightarrow>
                     let occupied = (case machineName act0 of
                                       Some n \<Rightarrow> n | None \<Rightarrow> ''another computer'')
                     in report env clk (LimitReached occupied) False
                          (limit_message occupied max_activations) [] fs)
              else
                let new_activation =
                      \<lparr>machineId = machine_id env,
                       machineName = Some (if machine_name env \<noteq> [] then machine_name env
                                           else ''Unknown''),
                       activatedAt = t_activated clk\<rparr>;
                    db' = db\<lparr>licenses := (licenses db)
                               [i := license_entry\<lparr>activations :=
                                       activations license_entry @ [new_activation]\<rparr>],
                             lastUpdated := t_updated clk\<rparr>
                in (case open_w fs LICENSES_FILE (LedgerDoc db') of
                      Inl e \<Rightarrow> (Raised e, fs)
                    | Inr fs' \<Rightarrow>
                        report env clk Activated True ''License activated successfully!''
                          (sha256_hex (email_env env @ ''|'' @ machine_id env
                                         @ ''|activated|'' @ encryption_key env))
                          fs'))"

text \<open>The whole script: the environment reads, the validations, PASO 1 and PASO 2, then the rest.\<close>

definition run :: "environ \<Rightarrow> clock \<Rightarrow> filesystem \<Rightarrow> outcome \<times> filesystem" where
  "run env clk fs =
     (case MAX_ACTIVATIONS env of
        None \<Rightarrow> (Raised ValueError, fs)
      | Some max_activations \<Rightarrow>
          if email_env env = [] \<or> master_key env = [] \<or> machine_id env = []
             \<or> request_id env = [] then
            report env clk MissingFields False ''Missing required fields.'' [] fs
          else if encryption_key env = [] then
            report env clk ServerMisconfigured False
              ''Server misconfigured. Contact support.'' [] fs
          else if master_key env \<noteq> generate_master_key (encryption_key env) (email_env env) then
            report env clk InvalidCredential False
              ''Invalid license key or email. Please verify and try again.'' [] fs
          else
            (case load_licenses clk fs of
               Inl e \<Rightarrow> (Raised e, fs)
             | Inr db \<Rightarrow> activate env clk max_activations db fs))"

subsection \<open>Notions the statements use\<close>

text \<open>
  The request passes the checks of lines 62 to 77: the four required fields and the
  secret are non-empty, and the normalised key is the expected one.
\<close>

definition passes_validation :: "environ \<Rightarrow> bool" where
  "passes_validation env =
     (email_env env \<noteq> [] \<and> master_key env \<noteq> [] \<and> machine_id env \<noteq> []
      \<and> request_id env \<noteq> [] \<and> encryption_key env \<noteq> []
      \<and> master_key env = generate_master_key (encryption_key env) (email_env env))"

text \<open>
  Invariant I3 of the data model, on a database and on the ledger file. A file that
  holds no ledger document holds no license entry.
\<close>

definition I3 :: "int \<Rightarrow> license_db \<Rightarrow> bool" where
  "I3 max_activations db =
     list_all (\<lambda>lic. int (length (activations lic)) \<le> max_activations) (licenses db)"

definition ledger_I3 :: "int \<Rightarrow> filesystem \<Rightarrow> bool" where
  "ledger_I3 max_activations fs =
     (case ledger fs of Some (File (LedgerDoc db)) \<Rightarrow> I3 max_activations db | _ \<Rightarrow> True)"


subsection \<open>The contracts of the specification, in its words\<close>

text \<open>
  KeyDeriver: the key is the uppercase of the first 16 hex characters of the SHA-256 of
  \<^verbatim>\<open>"{email}|lifetime|{sharedSecret}"\<close>; verification compares the candidate, trimmed,
  uppercased and with hyphens stripped, against it.
\<close>

definition KeyDeriver_derive :: "string \<Rightarrow> string \<Rightarrow> string" where
  "KeyDeriver_derive email' sharedSecret =
     upper (take 16 (sha256_hex (email' @ ''|lifetime|'' @ sharedSecret)))"

definition KeyDeriver_verify :: "string \<Rightarrow> string \<Rightarrow> string \<Rightarrow> bool" where
  "KeyDeriver_verify candidateKey email' sharedSecret =
     (replace CHR ''-'' [] (upper (strip candidateKey)) = KeyDeriver_derive email' sharedSecret)"



subsection \<open>Sample inputs\<close>

text \<open>
  A request from a license holder, under the secret \<^verbatim>\<open>s3cret\<close>: the e-mail address as
  typed, the master key issued for its normalised form, a machine and its name, the
  request id, and the activation limit.
\<close>

definition request_for :: "string \<Rightarrow> string \<Rightarrow> string \<Rightarrow> string \<Rightarrow> int \<Rightarrow> environ" where
  "request_for e m n rid k =
     \<lparr>INPUT_EMAIL = e,
      INPUT_MASTERKEY = generate_master_key ''s3cret'' (lower (strip e)),
      INPUT_MACHINEID = m, INPUT_MACHINENAME = n, INPUT_REQUESTID = rid,
      ENCRYPTION_KEY = ''s3cret'', MAX_ACTIVATIONS = Some k\<rparr>"

definition clock0 :: clock where
  "clock0 =
     \<lparr>t_db_created = ''2024-05-01T10:00:00+00:00'',
      t_entry_created = ''2024-05-01T10:00:01+00:00'',
      t_activated = ''2024-05-01T10:00:02+00:00'',
      t_updated = ''2024-05-01T10:00:03+00:00'',
      t_result = ''2024-05-01T10:00:04+00:00''\<rparr>"

text \<open>
  The working directory \<^verbatim>\<open>/work\<close> of a checkout: without a ledger, and with a file
  \<^verbatim>\<open>licenses.json\<close> of a given content. Neither has a directory \<^verbatim>\<open>results\<close> yet.
\<close>

definition empty_checkout :: filesystem where
  "empty_checkout = \<lparr>nodes = [[''work''] \<mapsto> Dir], cwd = [''work'']\<rparr>"

definition checkout_with :: "content \<Rightarrow> filesystem" where
  "checkout_with c =
     \<lparr>nodes = [[''work''] \<mapsto> Dir, [''work'', ''licenses.json''] \<mapsto> File c],
      cwd = [''work'']\<rparr>"

text \<open>The database after Alice's first activation, on machine \<^verbatim>\<open>PC-1\<close>.\<close>

definition alice_entry :: license_entry where
  "alice_entry =
     \<lparr>email = ''alice@x.com'',
      masterKey = generate_master_key ''s3cret'' ''alice@x.com'',
      createdAt = ''2024-05-01T10:00:01+00:00'', isActive = True,
      activations =
        [\<lparr>machineId = ''PC-1'', machineName = Some ''Alice laptop'',
          activatedAt = ''2024-05-01T10:00:02+00:00''\<rparr>]\<rparr>"

definition alice_db :: license_db where
  "alice_db =
     \<lparr>version = ''1.0'', lastUpdated = ''2024-05-01T10:00:03+00:00'',
      licenses = [alice_entry]\<rparr>"

text \<open>A database of two licenses: Bob's, active on one machine, then Alice's.\<close>

definition bob_entry :: license_entry where
  "bob_entry =
     \<lparr>email = ''bob@y.org'',
      masterKey = generate_master_key ''s3cret'' ''bob@y.org'',
      createdAt = ''2024-04-01T09:00:00+00:00'', isActive = True,
      activations =
        [\<lparr>machineId = ''M-7'', machineName = Some ''Bob PC'',
          activatedAt = ''2024-04-01T09:00:01+00:00''\<rparr>]\<rparr>"

definition two_licenses :: license_db where
  "two_licenses =
     \<lparr>version = ''1.0'', lastUpdated = ''2024-05-01T10:00:03+00:00'',
      licenses = [bob_entry, alice_entry]\<rparr>"

section \<open>Auxiliary facts\<close>

subsection \<open>Strings that normalisation leaves alone\<close>

lemma dropWhile_none: "\<forall>c\<in>set s. \<not> P c \<Longrightarrow> dropWhile P s = s"
  by (cases s) auto

lemma strip_id: "\<forall>c\<in>set s. \<not> isspace c \<Longrightarrow> strip s = s"
  by (simp add: strip_def dropWhile_none)

lemma upper_id: "\<forall>c\<in>set s. upper_char c = c \<Longrightarrow> upper s = s"
  by (simp add: upper_def map_idI)

lemma replace_id: "old \<notin> set s \<Longrightarrow> replace old new s = s"
  by (induction s) (auto simp: replace_def)

lemma upper_char_hex_all:
  "\<forall>c\<in>set ''0123456789abcdef''. upper_char c \<in> set ''0123456789ABCDEF''"
  by (simp add: upper_char_def ascii_lowercase_def ascii_uppercase_def)

lemma hex_upper_all:
  "\<forall>c\<in>set ''0123456789ABCDEF''. \<not> isspace c \<and> upper_char c = c \<and> c \<noteq> CHR ''-''"
  by (simp add: isspace_def upper_char_def ascii_lowercase_def ascii_uppercase_def)

subsection \<open>Shape of a digest\<close>

lemma length_hex32: "length (hex32 w) = 8"
  by (simp add: hex32_def)

lemma hexdigit_mem: "hexdigit n \<in> set ''0123456789abcdef''"
proof -
  have "n mod 16 < length ''0123456789abcdef''" by simp
  then show ?thesis unfolding hexdigit_def by (rule nth_mem)
qed

lemma set_hex32: "set (hex32 w) \<subseteq> set ''0123456789abcdef''"
proof
  fix c assume "c \<in> set (hex32 w)"
  then obtain n where "c = hexdigit n"
    by (auto simp: hex32_def)
  then show "c \<in> set ''0123456789abcdef''"
    using hexdigit_mem by simp
qed

lemma length_hexdigest: "length (hexdigest st) = 64"
  by (cases st rule: hexdigest.cases) (simp add: length_hex32)

lemma set_hexdigest: "set (hexdigest st) \<subseteq> set ''0123456789abcdef''"
proof (cases st rule: hexdigest.cases)
  case (1 a b c d e f g h)
  show ?thesis
    unfolding 1 hexdigest.simps set_append
    by (intro Un_least set_hex32)
qed

lemma length_sha256_hex: "length (sha256_hex s) = 64"
  by (simp add: sha256_hex_def length_hexdigest)

lemma set_sha256_hex: "set (sha256_hex s) \<subseteq> set ''0123456789abcdef''"
  by (simp only: sha256_hex_def set_hexdigest)

subsection \<open>Two digests, computed\<close>

text \<open>
  The digests of the two messages of the sample request, as \<^verbatim>\<open>hashlib\<close> gives them:
  the rounds of the single block, eight at a time.
\<close>

lemma replicate_numeral_Cons: "replicate (numeral n) x = x # replicate (pred_numeral n) x"
  by (simp add: numeral_eq_Suc)

lemma blocks_single: "length bs = 64 \<Longrightarrow> blocks bs = [bs]"
  by (subst blocks.simps, subst blocks.simps) simp

lemmas round_eval = rounds.simps Sigma0_def Sigma1_def sigma0_def sigma1_def Ch_def Maj_def rotr_def Let_def

lemma key_block:
  "be_words (pad (encode ''alice@x.com|lifetime|s3cret'')) =
     [0x616C6963, 0x6540782E, 0x636F6D7C, 0x6C696665, 0x74696D65, 0x7C733363, 0x72657480, 0x00000000, 0x00000000, 0x00000000, 0x00000000, 0x00000000, 0x00000000, 0x00000000, 0x00000000, 0x000000D8]"
  by (simp add: pad_def encode_def length_bytes_def replicate_numeral_Cons)

lemma key_rounds_0:
  "rounds (0x428A2F98 # 0x71374491 # 0xB5C0FBCF # 0xE9B5DBA5 # 0x3956C25B # 0x59F111F1 # 0x923F82A4 # 0xAB1C5ED5 # ks)
     [0x616C6963, 0x6540782E, 0x636F6D7C, 0x6C696665, 0x74696D65, 0x7C733363, 0x72657480, 0x00000000, 0x00000000, 0x00000000, 0x00000000, 0x00000000, 0x00000000, 0x00000000, 0x00000000, 0x000000D8]
     (0x6A09E667, 0xBB67AE85, 0x3C6EF372, 0xA54FF53A, 0x510E527F, 0x9B05688C, 0x1F83D9AB, 0x5BE0CD19)
   = rounds ks
     [0x00000000, 0x00000000, 0x00000000, 0x00000000, 0x00000000, 0x00000000, 0x00000000, 0x000000D8, 0xAFD58008, 0x95ABA3DC, 0x726ACA06, 0xB156BB59, 0xB6773A45, 0x5AE76772, 0xECAD6593, 0x0F175FFE]
     (0x439A5F46, 0x7E552922, 0x018B78A6, 0x4A22AFFC, 0x103FC654, 0xC93D2387, 0x1A8546B6, 0x0B62D39A)"
  apply (simp add: round_eval)
  apply (rule arg_cong2 [where f = "rounds ks"])
  apply simp_all
  done

lemma key_rounds_1:
  "rounds (0xD807AA98 # 0x12835B01 # 0x243185BE # 0x550C7DC3 # 0x72BE5D74 # 0x80DEB1FE # 0x9BDC06A7 # 0xC19BF174 # ks)
     [0x00000000, 0x00000000, 0x00000000, 0x00000000, 0x00000000, 0x00000000, 0x00000000, 0x000000D8, 0xAFD58008, 0x95ABA3DC, 0x726ACA06, 0xB156BB59, 0xB6773A45, 0x5AE76772, 0xECAD6593, 0x0F175FFE]
     (0x439A5F46, 0x7E552922, 0x018B78A6, 0x4A22AFFC, 0x103FC654, 0xC93D2387, 0x1A8546B6, 0x0B62D39A)
   = rounds ks
     [0xAFD58008, 0x95ABA3DC, 0x726ACA06, 0xB156BB59, 0xB6773A45, 0x5AE76772, 0xECAD6593, 0x0F175FFE, 0xB3EC4476, 0xB66DCDC4, 0x5BF02FF3, 0x15EE90CD, 0x6CF8A1FF, 0x8727B981, 0x0428C5E3, 0x4464B0DB]
     (0xC2DA1930, 0x416FE4E1, 0xBCDA448C, 0x355EFAD2, 0xFCEC1150, 0x784949D5, 0x76DB612C, 0xF06A472C)"
  apply (simp add: round_eval)
  apply (rule arg_cong2 [where f = "rounds ks"])
  apply simp_all
  done

lemma key_rounds_2:
  "rounds (0xE49B69C1 # 0xEFBE4786 # 0x0FC19DC6 # 0x240CA1CC # 0x2DE92C6F # 0x4A7484AA # 0x5CB0A9DC # 0x76F988DA # ks)
     [0xAFD58008, 0x95ABA3DC, 0x726ACA06, 0xB156BB59, 0xB6773A45, 0x5AE76772, 0xECAD6593, 0x0F175FFE, 0xB3EC4476, 0xB66DCDC4, 0x5BF02FF3, 0x15EE90CD, 0x6CF8A1FF, 0x8727B981, 0x0428C5E3, 0x4464B0DB]
     (0xC2DA1930, 0x416FE4E1, 0xBCDA448C, 0x355EFAD2, 0xFCEC1150, 0x784949D5, 0x76DB612C, 0xF06A472C)
   = rounds ks
     [0xB3EC4476, 0xB66DCDC4, 0x5BF02FF3, 0x15EE90CD, 0x6CF8A1FF, 0x8727B981, 0x0428C5E3, 0x4464B0DB, 0x23F93CC2, 0x702BB7AF, 0x4DE91CE7, 0x1EC11EF6, 0x21D0DD6D, 0x6EDAB7A6, 0xD0289DD8, 0x2A54E5D8]
     (0xB9D8594C, 0x6E772BC8, 0xEF243515, 0xF8CF1FE7, 0x6246F45B, 0xA1C067A8, 0x80CE51BF, 0xF2E2B646)"
  apply (simp add: round_eval)
  apply (rule arg_cong2 [where f = "rounds ks"])
  apply simp_all
  done

lemma key_rounds_3:
  "rounds (0x983E5152 # 0xA831C66D # 0xB00327C8 # 0xBF597FC7 # 0xC6E00BF3 # 0xD5A79147 # 0x06CA6351 # 0x14292967 # ks)
     [0xB3EC4476, 0xB66DCDC4, 0x5BF02FF3, 0x15EE90CD, 0x6CF8A1FF, 0x8727B981, 0x0428C5E3, 0x4464B0DB, 0x23F93CC2, 0x702BB7AF, 0x4DE91CE7, 0x1EC11EF6, 0x21D0DD6D, 0x6EDAB7A6, 0xD0289DD8, 0x2A54E5D8]
     (0xB9D8594C, 0x6E772BC8, 0xEF243515, 0xF8CF1FE7, 0x6246F45B, 0xA1C067A8, 0x80CE51BF, 0xF2E2B646)
   = rounds ks
     [0x23F93CC2, 0x702BB7AF, 0x4DE91CE7, 0x1EC11EF6, 0x21D0DD6D, 0x6EDAB7A6, 0xD0289DD8, 0x2A54E5D8, 0x6E4BC413, 0xD8E9A361, 0x51E6E149, 0xF8E3997D, 0x85F82EA6, 0x0EF55B21, 0xD3572666, 0x88AFEDFF]
     (0x2A797FB3, 0xAEEF73D4, 0xA1332592, 0xC5012B16, 0x4441DC73, 0x278484BC, 0x28215DC3, 0x8FEC591E)"
  apply (simp add: round_eval)
  apply (rule arg_cong2 [where f = "rounds ks"])
  apply simp_all
  done

lemma key_rounds_4:
  "rounds (0x27B70A85 # 0x2E1B2138 # 0x4D2C6DFC # 0x53380D13 # 0x650A7354 # 0x766A0ABB # 0x81C2C92E # 0x92722C85 # ks)
     [0x23F93CC2, 0x702BB7AF, 0x4DE91CE7, 0x1EC11EF6, 0x21D0DD6D, 0x6EDAB7A6, 0xD0289DD8, 0x2A54E5D8, 0x6E4BC413, 0xD8E9A361, 0x51E6E149, 0xF8E3997D, 0x85F82EA6, 0x0EF55B21, 0xD3572666, 0x88AFEDFF]
     (0x2A797FB3, 0xAEEF73D4, 0xA1332592, 0xC5012B16, 0x4441DC73, 0x278484BC, 0x28215DC3, 0x8FEC591E)
   = rounds ks
     [0x6E4BC413, 0xD8E9A361, 0x51E6E149, 0xF8E3997D, 0x85F82EA6, 0x0EF55B21, 0xD3572666, 0x88AFEDFF, 0x31BD43BB, 0x4D93DA90, 0xF8CB6E70, 0x23E58B8C, 0xF87E0262, 0x43C4C182, 0xA684086C, 0x2F04F6D5]
     (0x9F63A85B, 0xC90A2B58, 0x469330F6, 0x804F5671, 0x3A2D3659, 0x731D2E4E, 0xAE3F1409, 0x3D971F51)"
  apply (simp add: round_eval)
  apply (rule arg_cong2 [where f = "rounds ks"])
  apply simp_all
  done

lemma key_rounds_5:
  "rounds (0xA2BFE8A1 # 0xA81A664B # 0xC24B8B70 # 0xC76C51A3 # 0xD192E819 # 0xD6990624 # 0xF40E3585 # 0x106AA070 # ks)
     [0x6E4BC413, 0xD8E9A361, 0x51E6E149, 0xF8E3997D, 0x85F82EA6, 0x0EF55B21, 0xD3572666, 0x88AFEDFF, 0x31BD43BB, 0x4D93DA90, 0xF8CB6E70, 0x23E58B8C, 0xF87E0262, 0x43C4C182, 0xA684086C, 0x2F04F6D5]
     (0x9F63A85B, 0xC90A2B58, 0x469330F6, 0x804F5671, 0x3A2D3659, 0x731D2E4E, 0xAE3F1409, 0x3D971F51)
   = rounds ks
     [0x31BD43BB, 0x4D93DA90, 0xF8CB6E70, 0x23E58B8C, 0xF87E0262, 0x43C4C182, 0xA684086C, 0x2F04F6D5, 0xF1669643, 0xD83E4AC2, 0x12551634, 0x338E2960, 0x08A010BC, 0xA5605E1E, 0x22230ACA, 0xBFB680EC]
     (0xE2B1575F, 0xBC9B5EF3, 0x1020501D, 0x8650E3C4, 0x877CA6AE, 0x78C6CE5D, 0x64AAF26B, 0x1357838A)"
  apply (simp add: round_eval)
  apply (rule arg_cong2 [where f = "rounds ks"])
  apply simp_all
  done

lemma key_rounds_6:
  "rounds (0x19A4C116 # 0x1E376C08 # 0x2748774C # 0x34B0BCB5 # 0x391C0CB3 # 0x4ED8AA4A # 0x5B9CCA4F # 0x682E6FF3 # ks)
     [0x31BD43BB, 0x4D93DA90, 0xF8CB6E70, 0x23E58B8C, 0xF87E0262, 0x43C4C182, 0xA684086C, 0x2F04F6D5, 0xF1669643, 0xD83E4AC2, 0x12551634, 0x338E2960, 0x08A010BC, 0xA5605E1E, 0x22230ACA, 0xBFB680EC]
     (0xE2B1575F, 0xBC9B5EF3, 0x1020501D, 0x8650E3C4, 0x877CA6AE, 0x78C6CE5D, 0x64AAF26B, 0x1357838A)
   = rounds ks
     [0xF1669643, 0xD83E4AC2, 0x12551634, 0x338E2960, 0x08A010BC, 0xA5605E1E, 0x22230ACA, 0xBFB680EC, 0xCDBDBB97, 0x15A1DB71, 0x15BC7A76, 0x5DC0DEB1, 0x8CEE8939, 0xAA086277, 0x8DDF3296, 0x76813886]
     (0x31071100, 0x17651EFA, 0xD68D7F88, 0x355374ED, 0x3703157D, 0x4726A56A, 0x8C77B7F4, 0xABB49F90)"
  apply (simp add: round_eval)
  apply (rule arg_cong2 [where f = "rounds ks"])
  apply simp_all
  done

lemma key_rounds_7:
  "rounds (0x748F82EE # 0x78A5636F # 0x84C87814 # 0x8CC70208 # 0x90BEFFFA # 0xA4506CEB # 0xBEF9A3F7 # 0xC67178F2 # ks)
     [0xF1669643, 0xD83E4AC2, 0x12551634, 0x338E2960, 0x08A010BC, 0xA5605E1E, 0x22230ACA, 0xBFB680EC, 0xCDBDBB97, 0x15A1DB71, 0x15BC7A76, 0x5DC0DEB1, 0x8CEE8939, 0xAA086277, 0x8DDF3296, 0x76813886]
     (0x31071100, 0x17651EFA, 0xD68D7F88, 0x355374ED, 0x3703157D, 0x4726A56A, 0x8C77B7F4, 0xABB49F90)
   = rounds ks
     [0xCDBDBB97, 0x15A1DB71, 0x15BC7A76, 0x5DC0DEB1, 0x8CEE8939, 0xAA086277, 0x8DDF3296, 0x76813886, 0x924A560E, 0xD92C2795, 0x1E46D47B, 0xD4B50F71, 0xA1BF52B8, 0xAC563E07, 0x4A7A017D, 0x83B24C92]
     (0x64C41E7E, 0x8A8A4739, 0x71B4D969, 0x1B38D0C5, 0x8F97FBAD, 0xBF168FFB, 0xA531AD94, 0xCE71F48D)"
  apply (simp add: round_eval)
  apply (rule arg_cong2 [where f = "rounds ks"])
  apply simp_all
  done

lemma key_digest:
  "sha256_hex ''alice@x.com|lifetime|s3cret'' =
     ''cece04e545f1f5beae23ccdbc088c5ffe0a64e2c5a1bf887c4b5873f2a52c1a6''"
proof -
  have "length (pad (encode ''alice@x.com|lifetime|s3cret'')) = 64"
    by (simp add: pad_def encode_def length_bytes_def)
  then have "blocks (pad (encode ''alice@x.com|lifetime|s3cret'')) = [pad (encode ''alice@x.com|lifetime|s3cret'')]"
    by (rule blocks_single)
  then show ?thesis
    by (simp add: sha256_hex_def sha256_def compress_def key_block K256_def H256_def
          key_rounds_0 key_rounds_1 key_rounds_2 key_rounds_3 key_rounds_4 key_rounds_5 key_rounds_6 key_rounds_7 hex32_def hexdigit_def rounds.simps(1))
qed

lemma token_block:
  "be_words (pad (encode ''alice@x.com|PC-1|activated|s3cret'')) =
     [0x616C6963, 0x6540782E, 0x636F6D7C, 0x50432D31, 0x7C616374, 0x69766174, 0x65647C73, 0x33637265, 0x74800000, 0x00000000, 0x00000000, 0x00000000, 0x00000000, 0x00000000, 0x00000000, 0x00000108]"
  by (simp add: pad_def encode_def length_bytes_def replicate_numeral_Cons)

lemma token_rounds_0:
  "rounds (0x428A2F98 # 0x71374491 # 0xB5C0FBCF # 0xE9B5DBA5 # 0x3956C25B # 0x59F111F1 # 0x923F82A4 # 0xAB1C5ED5 # ks)
     [0x616C6963, 0x6540782E, 0x636F6D7C, 0x50432D31, 0x7C616374, 0x69766174, 0x65647C73, 0x33637265, 0x74800000, 0x00000000, 0x00000000, 0x00000000, 0x00000000, 0x00000000, 0x00000000, 0x00000108]
     (0x6A09E667, 0xBB67AE85, 0x3C6EF372, 0xA54FF53A, 0x510E527F, 0x9B05688C, 0x1F83D9AB, 0x5BE0CD19)
   = rounds ks
     [0x74800000, 0x00000000, 0x00000000, 0x00000000, 0x00000000, 0x00000000, 0x00000000, 0x00000108, 0xAFD58008, 0x95D9A3DC, 0x7782DCD8, 0xF59DCD20, 0x2FED73AB, 0xBDFA02B1, 0x8DA36B42, 0x32D3A74F]
     (0x3B20AFE3, 0xFD6F05B8, 0xEFC5603F, 0x0AA2803B, 0x19536E5D, 0x5B5EDAA7, 0x02A44814, 0xE1AD425F)"
  apply (simp add: round_eval)
  apply (rule arg_cong2 [where f = "rounds ks"])
  apply simp_all
  done

lemma token_rounds_1:
  "rounds (0xD807AA98 # 0x12835B01 # 0x243185BE # 0x550C7DC3 # 0x72BE5D74 # 0x80DEB1FE # 0x9BDC06A7 # 0xC19BF174 # ks)
     [0x74800000, 0x00000000, 0x00000000, 0x00000000, 0x00000000, 0x00000000, 0x00000000, 0x00000108, 0xAFD58008, 0x95D9A3DC, 0x7782DCD8, 0xF59DCD20, 0x2FED73AB, 0xBDFA02B1, 0x8DA36B42, 0x32D3A74F]
     (0x3B20AFE3, 0xFD6F05B8, 0xEFC5603F, 0x0AA2803B, 0x19536E5D, 0x5B5EDAA7, 0x02A44814, 0xE1AD425F)
   = rounds ks
     [0xAFD58008, 0x95D9A3DC, 0x7782DCD8, 0xF59DCD20, 0x2FED73AB, 0xBDFA02B1, 0x8DA36B42, 0x32D3A74F, 0xE344239B, 0x1EC5A8B2, 0x8B2429E2, 0x9136717B, 0x4FE9E0AD, 0x845A6263, 0x0F669BE3, 0xC547F9D5]
     (0xBBF0707D, 0x7956CB64, 0x1DD0F8F2, 0x45D9585B, 0xC3568E26, 0x793F58A9, 0x0819141F, 0xFFD25F65)"
  apply (simp add: round_eval)
  apply (rule arg_cong2 [where f = "rounds ks"])
  apply simp_all
  done

lemma token_rounds_2:
  "rounds (0xE49B69C1 # 0xEFBE4786 # 0x0FC19DC6 # 0x240CA1CC # 0x2DE92C6F # 0x4A7484AA # 0x5CB0A9DC # 0x76F988DA # ks)
     [0xAFD58008, 0x95D9A3DC, 0x7782DCD8, 0xF59DCD20, 0x2FED73AB, 0xBDFA02B1, 0x8DA36B42, 0x32D3A74F, 0xE344239B, 0x1EC5A8B2, 0x8B2429E2, 0x9136717B, 0x4FE9E0AD, 0x845A6263, 0x0F669BE3, 0xC547F9D5]
     (0xBBF0707D, 0x7956CB64, 0x1DD0F8F2, 0x45D9585B, 0xC3568E26, 0x793F58A9, 0x0819141F, 0xFFD25F65)
   = rounds ks
     [0xE344239B, 0x1EC5A8B2, 0x8B2429E2, 0x9136717B, 0x4FE9E0AD, 0x845A6263, 0x0F669BE3, 0xC547F9D5, 0x30910AFD, 0x2E081D75, 0xD8F727C4, 0x61F01DF8, 0x1FDD7BE7, 0x293B682B, 0xD7601F75, 0x5FC86691]
     (0x304065F5, 0x3327D8D4, 0x74BD57F9, 0x0B503054, 0x4D9B4304, 0x6AF8F332, 0x7847087B, 0xB55096E5)"
  apply (simp add: round_eval)
  apply (rule arg_cong2 [where f = "rounds ks"])
  apply simp_all
  done

lemma token_rounds_3:
  "rounds (0x983E5152 # 0xA831C66D # 0xB00327C8 # 0xBF597FC7 # 0xC6E00BF3 # 0xD5A79147 # 0x06CA6351 # 0x14292967 # ks)
     [0xE344239B, 0x1EC5A8B2, 0x8B2429E2, 0x9136717B, 0x4FE9E0AD, 0x845A6263, 0x0F669BE3, 0xC547F9D5, 0x30910AFD, 0x2E081D75, 0xD8F727C4, 0x61F01DF8, 0x1FDD7BE7, 0x293B682B, 0xD7601F75, 0x5FC86691]
     (0x304065F5, 0x3327D8D4, 0x74BD57F9, 0x0B503054, 0x4D9B4304, 0x6AF8F332, 0x7847087B, 0xB55096E5)
   = rounds ks
     [0x30910AFD, 0x2E081D75, 0xD8F727C4, 0x61F01DF8, 0x1FDD7BE7, 0x293B682B, 0xD7601F75, 0x5FC86691, 0x2B778461, 0x1554B620, 0x9924FB8E, 0xAA2F06BD, 0xAAD138FE, 0x20694AFD, 0x77D03888, 0x3BB4FC0F]
     (0xF2B7A8A4, 0x2904ED04, 0x02548BA8, 0xA1B62344, 0xA2CA47B6, 0xEAEC82F8, 0x42BAB346, 0x440FFC27)"
  apply (simp add: round_eval)
  apply (rule arg_cong2 [where f = "rounds ks"])
  apply simp_all
  done

lemma token_rounds_4:
  "rounds (0x27B70A85 # 0x2E1B2138 # 0x4D2C6DFC # 0x53380D13 # 0x650A7354 # 0x766A0ABB # 0x81C2C92E # 0x92722C85 # ks)
     [0x30910AFD, 0x2E081D75, 0xD8F727C4, 0x61F01DF8, 0x1FDD7BE7, 0x293B682B, 0xD7601F75, 0x5FC86691, 0x2B778461, 0x1554B620, 0x9924FB8E, 0xAA2F06BD, 0xAAD138FE, 0x20694AFD, 0x77D03888, 0x3BB4FC0F]
     (0xF2B7A8A4, 0x2904ED04, 0x02548BA8, 0xA1B62344, 0xA2CA47B6, 0xEAEC82F8, 0x42BAB346, 0x440FFC27)
   = rounds ks
     [0x2B778461, 0x1554B620, 0x9924FB8E, 0xAA2F06BD, 0xAAD138FE, 0x20694AFD, 0x77D03888, 0x3BB4FC0F, 0x49EEDA4F, 0x0413ED20, 0x352660F5, 0x2B342FE2, 0xC6300E2E, 0x29B2F4B2, 0x4ADB1F4E, 0xF49CD38B]
     (0xA5FED230, 0x240E8797, 0x64F2E412, 0xCB3B9C60, 0x8B843694, 0xA02961FC, 0x300E7A8A, 0xA70D960D)"
  apply (simp add: round_eval)
  apply (rule arg_cong2 [where f = "rounds ks"])
  apply simp_all
  done

lemma token_rounds_5:
  "rounds (0xA2BFE8A1 # 0xA81A664B # 0xC24B8B70 # 0xC76C51A3 # 0xD192E819 # 0xD6990624 # 0xF40E3585 # 0x106AA070 # ks)
     [0x2B778461, 0x1554B620, 0x9924FB8E, 0xAA2F06BD, 0xAAD138FE, 0x20694AFD, 0x77D03888, 0x3BB4FC0F, 0x49EEDA4F, 0x0413ED20, 0x352660F5, 0x2B342FE2, 0xC6300E2E, 0x29B2F4B2, 0x4ADB1F4E, 0xF49CD38B]
     (0xA5FED230, 0x240E8797, 0x64F2E412, 0xCB3B9C60, 0x8B843694, 0xA02961FC, 0x300E7A8A, 0xA70D960D)
   = rounds ks
     [0x49EEDA4F, 0x0413ED20, 0x352660F5, 0x2B342FE2, 0xC6300E2E, 0x29B2F4B2, 0x4ADB1F4E, 0xF49CD38B, 0x8AF0076F, 0x6EFA2BCD, 0x779087E8, 0x6713E8ED, 0xD48BB29B, 0x04EF0070, 0x419AF6DF, 0x481A112E]
     (0x0FE5D97A, 0x9834428C, 0x0BA3E3C1, 0x5C9149A0, 0xFB2D0F81, 0x710181E2, 0x965C8F04, 0x9176462D)"
  apply (simp add: round_eval)
  apply (rule arg_cong2 [where f = "rounds ks"])
  apply simp_all
  done

lemma token_rounds_6:
  "rounds (0x19A4C116 # 0x1E376C08 # 0x2748774C # 0x34B0BCB5 # 0x391C0CB3 # 0x4ED8AA4A # 0x5B9CCA4F # 0x682E6FF3 # ks)
     [0x49EEDA4F, 0x0413ED20, 0x352660F5, 0x2B342FE2, 0xC6300E2E, 0x29B2F4B2, 0x4ADB1F4E, 0xF49CD38B, 0x8AF0076F, 0x6EFA2BCD, 0x779087E8, 0x6713E8ED, 0xD48BB29B, 0x04EF0070, 0x419AF6DF, 0x481A112E]
     (0x0FE5D97A, 0x9834428C, 0x0BA3E3C1, 0x5C9149A0, 0xFB2D0F81, 0x710181E2, 0x965C8F04, 0x9176462D)
   = rounds ks
     [0x8AF0076F, 0x6EFA2BCD, 0x779087E8, 0x6713E8ED, 0xD48BB29B, 0x04EF0070, 0x419AF6DF, 0x481A112E, 0x9A4F8FD9, 0x3B392E28, 0x9D341EDD, 0xF9618782, 0x33FAEFEC, 0xB07AAEEF, 0xFA94F0A6, 0x6102965C]
     (0xA26B1EE5, 0xFCB5DF49, 0x4169FE0A, 0x1CEC51AC, 0x1EF297C2, 0xA5210EA0, 0xC97BD767, 0x626B29A0)"
  apply (simp add: round_eval)
  apply (rule arg_cong2 [where f = "rounds ks"])
  apply simp_all
  done

lemma token_rounds_7:
  "rounds (0x748F82EE # 0x78A5636F # 0x84C87814 # 0x8CC70208 # 0x90BEFFFA # 0xA4506CEB # 0xBEF9A3F7 # 0xC67178F2 # ks)
     [0x8AF0076F, 0x6EFA2BCD, 0x779087E8, 0x6713E8ED, 0xD48BB29B, 0x04EF0070, 0x419AF6DF, 0x481A112E, 0x9A4F8FD9, 0x3B392E28, 0x9D341EDD, 0xF9618782, 0x33FAEFEC, 0xB07AAEEF, 0xFA94F0A6, 0x6102965C]
     (0xA26B1EE5, 0xFCB5DF49, 0x4169FE0A, 0x1CEC51AC, 0x1EF297C2, 0xA5210EA0, 0xC97BD767, 0x626B29A0)
   = rounds ks
     [0x9A4F8FD9, 0x3B392E28, 0x9D341EDD, 0xF9618782, 0x33FAEFEC, 0xB07AAEEF, 0xFA94F0A6, 0x6102965C, 0xCA94274B, 0x261372C4, 0x34874B83, 0x33E08004, 0xF24B7DC0, 0x5A9A1412, 0x45DB66EF, 0x9ED7018B]
     (0x055195DA, 0xF7DFB76C, 0x2123FF8E, 0xA148B023, 0x13EA7633, 0xA7A9518B, 0xCE7D4A6F, 0x95EA81DD)"
  apply (simp add: round_eval)
  apply (rule arg_cong2 [where f = "rounds ks"])
  apply simp_all
  done

lemma token_digest:
  "sha256_hex ''alice@x.com|PC-1|activated|s3cret'' =
     ''6f5b7c41b34765f15d92f3004698a55d64f8c8b242aeba17ee01241af1cb4ef6''"
proof -
  have "length (pad (encode ''alice@x.com|PC-1|activated|s3cret'')) = 64"
    by (simp add: pad_def encode_def length_bytes_def)
  then have "blocks (pad (encode ''alice@x.com|PC-1|activated|s3cret'')) = [pad (encode ''alice@x.com|PC-1|activated|s3cret'')]"
    by (rule blocks_single)
  then show ?thesis
    by (simp add: sha256_hex_def sha256_def compress_def token_block K256_def H256_def
          token_rounds_0 token_rounds_1 token_rounds_2 token_rounds_3 token_rounds_4 token_rounds_5 token_rounds_6 token_rounds_7 hex32_def hexdigit_def rounds.simps(1))
qed

subsection \<open>Shape of a master key\<close>

lemma length_generate_master_key: "length (generate_master_key k e) = 16"
  by (simp add: generate_master_key_def upper_def length_sha256_hex)

lemma generate_master_key_nonempty: "generate_master_key k e \<noteq> []"
  using length_generate_master_key [of k e] by auto

lemma set_generate_master_key:
  "set (generate_master_key k e) \<subseteq> set ''0123456789ABCDEF''"
proof
  fix c assume "c \<in> set (generate_master_key k e)"
  then obtain d where d: "d \<in> set (take 16 (sha256_hex (e @ ''|lifetime|'' @ k)))"
    and c: "c = upper_char d"
    by (auto simp: generate_master_key_def upper_def)
  from d have "d \<in> set ''0123456789abcdef''"
    using set_sha256_hex by (blast dest: in_set_takeD)
  with c show "c \<in> set ''0123456789ABCDEF''"
    using upper_char_hex_all by blast
qed

lemma normalize_generate_master_key:
  "replace CHR ''-'' [] (upper (strip (generate_master_key k e))) = generate_master_key k e"
proof -
  let ?g = "generate_master_key k e"
  have mem: "\<forall>c\<in>set ?g. \<not> isspace c \<and> upper_char c = c \<and> c \<noteq> CHR ''-''"
    using set_generate_master_key [of k e] hex_upper_all by blast
  have "strip ?g = ?g"
    by (rule strip_id) (use mem in blast)
  moreover have "upper ?g = ?g"
    by (rule upper_id) (use mem in blast)
  moreover have "replace CHR ''-'' [] ?g = ?g"
    by (rule replace_id) (use mem in blast)
  ultimately show ?thesis by simp
qed

subsection \<open>The search loop\<close>

lemma find_entry_Some:
  "find_entry lics e = Some i \<Longrightarrow> i < length lics \<and> email (lics ! i) = e"
  by (induction lics arbitrary: i) (auto split: if_splits)

lemma find_entry_update:
  "find_entry lics e = Some i \<Longrightarrow> email lic' = e \<Longrightarrow> find_entry (lics[i := lic']) e = Some i"
  by (induction lics arbitrary: i) (auto split: if_splits)

lemma find_entry_append_new:
  "find_entry lics e = None \<Longrightarrow> email lic' = e \<Longrightarrow>
   find_entry (lics @ [lic']) e = Some (length lics)"
  by (induction lics) (auto split: if_splits)

subsection \<open>Paths and the result file\<close>

lemma split_path_no_slash: "CHR ''/'' \<notin> set s \<Longrightarrow> split_path s = [s]"
  by (induction s) auto

lemma split_path_first:
  "CHR ''/'' \<notin> set a \<Longrightarrow> split_path (a @ CHR ''/'' # b) = a # split_path b"
  by (induction a) auto

lemma walk_error: "walk ns d cs = Inl e \<Longrightarrow> e = OSError"
  by (induction ns d cs rule: walk.induct) (auto split: if_splits option.splits node.splits)

lemma open_w_error: "open_w fs p v = Inl e \<Longrightarrow> e = OSError"
  by (auto simp: open_w_def Let_def dest: walk_error
           split: if_splits sum.splits option.splits node.splits)

lemma open_w_effect:
  "open_w fs p v = Inr fs' \<Longrightarrow>
   cwd fs' = cwd fs \<and> (\<exists>q. nodes fs' = (nodes fs)(q \<mapsto> File v))"
  by (auto simp: open_w_def Let_def split: if_splits sum.splits option.splits node.splits)

lemma makedirs_error: "makedirs fs name = Inl e \<Longrightarrow> e = OSError"
  by (auto simp: makedirs_def split: option.splits node.splits)

lemma makedirs_effect:
  "makedirs fs name = Inr fs' \<Longrightarrow>
   cwd fs' = cwd fs \<and> (nodes fs' = nodes fs \<or> nodes fs' = (nodes fs)(cwd fs @ [name] \<mapsto> Dir))"
  by (auto simp: makedirs_def split: option.splits node.splits)

lemma makedirs_results_ledger: "makedirs fs ''results'' = Inr fs' \<Longrightarrow> ledger fs' = ledger fs"
  by (auto simp: ledger_def LICENSES_FILE_def dest!: makedirs_effect)

lemma open_w_ledger:
  assumes "ledger fs \<noteq> Some Dir"
  shows "open_w fs LICENSES_FILE v =
           Inr (fs\<lparr>nodes := (nodes fs)(cwd fs @ [LICENSES_FILE] \<mapsto> File v)\<rparr>)"
proof -
  have "split_path LICENSES_FILE = [LICENSES_FILE]"
    by (rule split_path_no_slash) (simp add: LICENSES_FILE_def)
  moreover have "length LICENSES_FILE = 13"
    by (simp add: LICENSES_FILE_def)
  moreover have "LICENSES_FILE \<noteq> [] \<and> LICENSES_FILE \<noteq> ''.'' \<and> LICENSES_FILE \<noteq> ''..''"
    by (simp add: LICENSES_FILE_def)
  ultimately show ?thesis
    using assms
    by (auto simp: open_w_def ledger_def PATH_MAX_def NAME_MAX_def
             split: option.splits node.splits)
qed

text \<open>What a result write can do to the ledger: nothing, or replace it by the result.\<close>

lemma write_result_error: "fst (write_result env clk succ msg token fs) = Inl e \<Longrightarrow> e = OSError"
  by (auto simp: write_result_def Let_def dest: makedirs_error open_w_error split: sum.splits)

lemma write_result_result:
  "fst (write_result env clk succ msg token fs) = Inr r \<Longrightarrow>
   r = \<lparr>requestId = request_id env, success = succ, message = msg,
         activationToken = token, timestamp = t_result clk\<rparr>"
  by (auto simp: write_result_def Let_def split: sum.splits)

lemma write_result_cwd: "cwd (snd (write_result env clk succ msg token fs)) = cwd fs"
  by (auto simp: write_result_def Let_def dest!: makedirs_effect open_w_effect split: sum.splits)

lemma write_result_ledger:
  "ledger (snd (write_result env clk succ msg token fs)) = ledger fs
   \<or> (\<exists>r. ledger (snd (write_result env clk succ msg token fs)) = Some (File (ResultDoc r)))"
proof (cases "makedirs fs ''results''")
  case (Inl e)
  then show ?thesis by (simp add: write_result_def)
next
  case (Inr fs1)
  then have l1: "ledger fs1 = ledger fs"
    by (rule makedirs_results_ledger)
  let ?r = "\<lparr>requestId = request_id env, success = succ, message = msg,
              activationToken = token, timestamp = t_result clk\<rparr>"
  show ?thesis
  proof (cases "open_w fs1 (''results/'' @ request_id env @ ''.json'') (ResultDoc ?r)")
    case (Inl e)
    with Inr l1 show ?thesis by (simp add: write_result_def)
  next
    case (Inr fs2)
    from open_w_effect [OF this] obtain q where
      "cwd fs2 = cwd fs1" and "nodes fs2 = (nodes fs1)(q \<mapsto> File (ResultDoc ?r))"
      by blast
    then have "ledger fs2 = ledger fs1 \<or> ledger fs2 = Some (File (ResultDoc ?r))"
      by (auto simp: ledger_def)
    with \<open>makedirs fs ''results'' = Inr fs1\<close> Inr l1 show ?thesis
      by (auto simp: write_result_def)
  qed
qed

lemma report_fst:
  "fst (report env clk d succ msg token fs) = Raised OSError
   \<or> fst (report env clk d succ msg token fs) =
       Exited d \<lparr>requestId = request_id env, success = succ, message = msg,
                 activationToken = token, timestamp = t_result clk\<rparr>"
proof (cases "fst (write_result env clk succ msg token fs)")
  case (Inl e)
  then have "e = OSError" by (rule write_result_error)
  with Inl show ?thesis
    by (cases "write_result env clk succ msg token fs") (simp add: report_def)
next
  case (Inr r)
  with write_result_result [OF Inr] show ?thesis
    by (cases "write_result env clk succ msg token fs") (simp add: report_def)
qed

lemma report_snd:
  "snd (report env clk d succ msg token fs) = snd (write_result env clk succ msg token fs)"
  by (cases "write_result env clk succ msg token fs")
     (auto simp: report_def split: sum.splits)

lemma report_ledger:
  "ledger (snd (report env clk d succ msg token fs)) = ledger fs
   \<or> (\<exists>r. ledger (snd (report env clk d succ msg token fs)) = Some (File (ResultDoc r)))"
  unfolding report_snd by (rule write_result_ledger)

text \<open>A request id without a slash names a file directly in \<^verbatim>\<open>results\<close>.\<close>

lemma result_path_names:
  "CHR ''/'' \<notin> set rid \<Longrightarrow>
   split_path (''results/'' @ rid @ ''.json'') = [''results'', rid @ ''.json'']"
proof -
  assume "CHR ''/'' \<notin> set rid"
  then have "split_path (rid @ ''.json'') = [rid @ ''.json'']"
    by (intro split_path_no_slash) auto
  moreover have "split_path (''results'' @ CHR ''/'' # (rid @ ''.json''))
                   = ''results'' # split_path (rid @ ''.json'')"
    by (rule split_path_first) simp
  ultimately show ?thesis by simp
qed

lemma open_w_result_ledger:
  assumes "CHR ''/'' \<notin> set rid"
    and "open_w fs1 (''results/'' @ rid @ ''.json'') v = Inr fs2"
  shows "ledger fs2 = ledger fs1"
proof -
  from assms(2) show ?thesis
    unfolding open_w_def result_path_names [OF assms(1)]
    by (auto simp: Let_def ledger_def NAME_MAX_def
             split: if_splits sum.splits option.splits node.splits)
qed

lemma write_result_keeps_ledger:
  assumes "CHR ''/'' \<notin> set (request_id env)"
  shows "ledger (snd (write_result env clk succ msg token fs)) = ledger fs"
proof (cases "makedirs fs ''results''")
  case (Inl e)
  then show ?thesis by (simp add: write_result_def)
next
  case (Inr fs1)
  then have l1: "ledger fs1 = ledger fs"
    by (rule makedirs_results_ledger)
  show ?thesis
  proof (cases "open_w fs1 (''results/'' @ request_id env @ ''.json'')
                  (ResultDoc \<lparr>requestId = request_id env, success = succ, message = msg,
                              activationToken = token, timestamp = t_result clk\<rparr>)")
    case (Inl e)
    with \<open>makedirs fs ''results'' = Inr fs1\<close> l1 show ?thesis
      by (simp add: write_result_def)
  next
    case (Inr fs2)
    from open_w_result_ledger [OF assms Inr] have "ledger fs2 = ledger fs1" .
    with \<open>makedirs fs ''results'' = Inr fs1\<close> Inr l1 show ?thesis
      by (simp add: write_result_def)
  qed
qed

lemma report_keeps_ledger:
  "CHR ''/'' \<notin> set (request_id env) \<Longrightarrow>
   ledger (snd (report env clk d succ msg token fs)) = ledger fs"
  unfolding report_snd by (rule write_result_keeps_ledger)

subsection \<open>The run, by the stage it reaches\<close>

lemma run_no_max: "MAX_ACTIVATIONS env = None \<Longrightarrow> run env clk fs = (Raised ValueError, fs)"
  by (simp add: run_def)

lemma run_validated:
  "MAX_ACTIVATIONS env = Some k \<Longrightarrow> passes_validation env \<Longrightarrow>
   run env clk fs =
     (case load_licenses clk fs of
        Inl e \<Rightarrow> (Raised e, fs)
      | Inr db \<Rightarrow> activate env clk k db fs)"
  by (auto simp: run_def passes_validation_def)

lemma run_rejected:
  "MAX_ACTIVATIONS env = Some k \<Longrightarrow> \<not> passes_validation env \<Longrightarrow>
   \<exists>d msg. d \<in> {MissingFields, ServerMisconfigured, InvalidCredential}
     \<and> run env clk fs = report env clk d False msg [] fs"
  by (auto simp: run_def passes_validation_def)

lemma load_licenses_Inr:
  "load_licenses clk fs = Inr db \<Longrightarrow> ledger fs \<noteq> Some Dir"
  by (auto simp: load_licenses_def split: option.splits node.splits content.splits)

lemma list_all_update:
  "list_all P xs \<Longrightarrow> P y \<Longrightarrow> list_all P (xs[i := y])"
  by (induction xs arbitrary: i) (auto split: nat.splits)

subsection \<open>The sample inputs\<close>

lemma master_key_issued:
  "INPUT_MASTERKEY env = generate_master_key k e \<Longrightarrow> master_key env = generate_master_key k e"
  by (simp add: master_key_def normalize_generate_master_key)

lemma request_for_reads:
  "email_env (request_for e m n rid k) = lower (strip e)"
  "master_key (request_for e m n rid k) = generate_master_key ''s3cret'' (lower (strip e))"
  "machine_id (request_for e m n rid k) = strip m"
  "machine_name (request_for e m n rid k) = strip n"
  "request_id (request_for e m n rid k) = strip rid"
  "encryption_key (request_for e m n rid k) = ''s3cret''"
  "MAX_ACTIVATIONS (request_for e m n rid k) = Some k"
proof -
  show "master_key (request_for e m n rid k) = generate_master_key ''s3cret'' (lower (strip e))"
    by (rule master_key_issued) (simp add: request_for_def)
qed (simp_all add: request_for_def email_env_def machine_id_def machine_name_def
       request_id_def encryption_key_def)

lemma request_for_passes:
  "lower (strip e) \<noteq> [] \<Longrightarrow> strip m \<noteq> [] \<Longrightarrow> strip rid \<noteq> [] \<Longrightarrow>
   passes_validation (request_for e m n rid k)"
  by (simp add: passes_validation_def request_for_reads generate_master_key_nonempty)

lemmas text_eval = strip_def isspace_def lower_def lower_char_def upper_def upper_char_def
  ascii_lowercase_def ascii_uppercase_def

lemmas fs_eval = report_def write_result_def makedirs_def open_w_def Let_def NAME_MAX_def
  PATH_MAX_def ledger_def LICENSES_FILE_def load_licenses_def

lemmas sample_defs = clock0_def empty_checkout_def checkout_with_def alice_db_def
  alice_entry_def bob_entry_def two_licenses_def

lemma run_alice_fresh:
  "fst (run (request_for '' Alice@X.com'' ''PC-1'' ''Alice laptop'' ''req-1'' 1) clock0
          empty_checkout) =
     Exited Activated
        \<lparr>requestId = ''req-1'', success = True, message = ''License activated successfully!'',
         activationToken = sha256_hex ''alice@x.com|PC-1|activated|s3cret'',
         timestamp = ''2024-05-01T10:00:04+00:00''\<rparr>"
  "ledger (snd (run (request_for '' Alice@X.com'' ''PC-1'' ''Alice laptop'' ''req-1'' 1) clock0
                  empty_checkout)) = Some (File (LedgerDoc alice_db))"
proof -
  have "passes_validation (request_for '' Alice@X.com'' ''PC-1'' ''Alice laptop'' ''req-1'' 1)"
    by (rule request_for_passes) (simp_all add: text_eval)
  then show
    "fst (run (request_for '' Alice@X.com'' ''PC-1'' ''Alice laptop'' ''req-1'' 1) clock0
          empty_checkout) =
     Exited Activated
        \<lparr>requestId = ''req-1'', success = True, message = ''License activated successfully!'',
         activationToken = sha256_hex ''alice@x.com|PC-1|activated|s3cret'',
         timestamp = ''2024-05-01T10:00:04+00:00''\<rparr>"
    "ledger (snd (run (request_for '' Alice@X.com'' ''PC-1'' ''Alice laptop'' ''req-1'' 1) clock0
                  empty_checkout)) = Some (File (LedgerDoc alice_db))"
    by (simp_all add: run_validated [where k = 1] request_for_reads activate_def
          find_or_create_def fs_eval sample_defs text_eval)
qed

section \<open>Claims\<close>

subsection \<open>C2: one run preserves the activation limit\<close>

lemma ledger_I3_report:
  "ledger_I3 k fs \<Longrightarrow> ledger_I3 k (snd (report env clk d succ msg token fs))"
  using report_ledger [of env clk d succ msg token fs]
  by (auto simp: ledger_I3_def)

lemma ledger_I3_written:
  assumes "I3 k db" and "ledger fs \<noteq> Some Dir"
  shows "\<exists>fs'. open_w fs LICENSES_FILE (LedgerDoc db) = Inr fs' \<and> ledger_I3 k fs'"
  using assms by (simp add: open_w_ledger ledger_I3_def ledger_def)

lemma activate_I3:
  assumes "I3 k db0" and "ledger_I3 k fs" and "ledger fs \<noteq> Some Dir"
  shows "ledger_I3 k (snd (activate env clk k db0 fs))"
proof -
  obtain db i where fc: "find_or_create env clk db0 = (db, i)"
    by (cases "find_or_create env clk db0")
  let ?entry = "licenses db ! i"
  have i: "i < length (licenses db)"
    and others: "\<forall>j < length (licenses db). j \<noteq> i \<longrightarrow>
                   int (length (activations (licenses db ! j))) \<le> k"
    using fc assms(1)
    by (auto simp: find_or_create_def I3_def find_entry_Some list_all_length nth_append
             split: option.splits)
  show ?thesis
  proof (cases "list_ex (\<lambda>act. machineId act = machine_id env) (activations ?entry)")
    case True
    with fc assms(2) show ?thesis
      by (simp add: activate_def ledger_I3_report)
  next
    case False
    show ?thesis
    proof (cases "k \<le> int (length (activations ?entry))")
      case True
      with False fc assms(2) show ?thesis
        by (auto simp: activate_def Let_def ledger_I3_report split: list.splits)
    next
      case below: False
      let ?new = "\<lparr>machineId = machine_id env,
                   machineName = Some (if machine_name env \<noteq> [] then machine_name env
                                       else ''Unknown''),
                   activatedAt = t_activated clk\<rparr>"
      let ?db' = "db\<lparr>licenses := (licenses db)
                       [i := ?entry\<lparr>activations := activations ?entry @ [?new]\<rparr>],
                     lastUpdated := t_updated clk\<rparr>"
      have "I3 k ?db'"
        using i others below
        by (auto simp: I3_def list_all_length nth_list_update)
      from ledger_I3_written [OF this assms(3)] obtain fs' where
        w: "open_w fs LICENSES_FILE (LedgerDoc ?db') = Inr fs'" and "ledger_I3 k fs'"
        by blast
      then have "ledger_I3 k (snd (report env clk Activated True
                   ''License activated successfully!''
                   (sha256_hex (email_env env @ ''|'' @ machine_id env @ ''|activated|''
                                  @ encryption_key env)) fs'))"
        by (simp add: ledger_I3_report)
      with False below fc w show ?thesis
        by (simp add: activate_def Let_def)
    qed
  qed
qed

text \<open>
  C2. For a limit of at least 1 and a ledger in which every license entry has at most
  that many activations, the ledger after one run of the script again has at most that
  many activations in every entry.
\<close>

theorem run_preserves_I3:
  assumes "MAX_ACTIVATIONS env = Some k" and "1 \<le> k" and "ledger_I3 k fs"
  shows "ledger_I3 k (snd (run env clk fs))"
proof (cases "passes_validation env")
  case False
  from run_rejected [OF assms(1) False] obtain d msg where
    "run env clk fs = report env clk d False msg [] fs"
    by blast
  with assms(3) show ?thesis
    by (simp add: ledger_I3_report)
next
  case True
  show ?thesis
  proof (cases "load_licenses clk fs")
    case (Inl e)
    with assms(1,3) True show ?thesis
      by (simp add: run_validated)
  next
    case (Inr db)
    then have "I3 k db"
      using assms(3)
      by (auto simp: load_licenses_def ledger_I3_def I3_def
               split: option.splits node.splits content.splits)
    moreover have "ledger fs \<noteq> Some Dir"
      using Inr by (rule load_licenses_Inr)
    ultimately show ?thesis
      using assms(1,3) True Inr by (simp add: run_validated activate_I3)
  qed
qed

theorem run_preserves_I3_witness:
  "MAX_ACTIVATIONS (request_for '' Alice@X.com'' ''PC-1'' ''Alice laptop'' ''req-1'' 1) = Some 1
   \<and> (1::int) \<le> 1 \<and> ledger_I3 1 empty_checkout
   \<and> ledger (snd (run (request_for '' Alice@X.com'' ''PC-1'' ''Alice laptop'' ''req-1'' 1)
                     clock0 empty_checkout))
       = Some (File (LedgerDoc alice_db))
   \<and> ledger_I3 1 (snd (run (request_for '' Alice@X.com'' ''PC-1'' ''Alice laptop'' ''req-1'' 1)
                          clock0 empty_checkout))"
proof -
  have "ledger_I3 1 empty_checkout"
    by (simp add: ledger_I3_def ledger_def empty_checkout_def LICENSES_FILE_def)
  then show ?thesis
    using run_preserves_I3
            [of "request_for '' Alice@X.com'' ''PC-1'' ''Alice laptop'' ''req-1'' 1" 1
                empty_checkout clock0]
    by (simp add: request_for_reads run_alice_fresh)
qed

subsection \<open>C9: an unreadable ledger is reported, never replaced by a database\<close>

text \<open>
  C9. When \<^verbatim>\<open>licenses.json\<close> exists but does not parse, a run that reaches PASO 2 ends
  in the uncaught \<^verbatim>\<open>JSONDecodeError\<close> with the file system as it was, and after no run
  at all does \<^verbatim>\<open>licenses.json\<close> hold a database, fresh or other. The loader builds the
  fresh database (version "1.0", no licenses) when nothing is at the path; when
  something is there, a database it returns is the one the file holds.
\<close>

theorem corrupt_ledger_surfaced:
  "(MAX_ACTIVATIONS env = Some k \<and> passes_validation env \<and> ledger fs = Some (File Garbage)
      \<longrightarrow> run env clk fs = (Raised JSONDecodeError, fs))
   \<and> (ledger fs = Some (File Garbage)
      \<longrightarrow> (\<forall>db. ledger (snd (run env clk fs)) \<noteq> Some (File (LedgerDoc db))))
   \<and> (ledger fs = None
      \<longrightarrow> load_licenses clk fs =
            Inr \<lparr>version = ''1.0'', lastUpdated = t_db_created clk, licenses = []\<rparr>)
   \<and> (ledger fs \<noteq> None \<and> load_licenses clk fs = Inr db
      \<longrightarrow> ledger fs = Some (File (LedgerDoc db)))"
proof (intro conjI impI allI)
  assume "MAX_ACTIVATIONS env = Some k \<and> passes_validation env \<and> ledger fs = Some (File Garbage)"
  then show "run env clk fs = (Raised JSONDecodeError, fs)"
    by (simp add: run_validated load_licenses_def)
next
  fix db
  assume g: "ledger fs = Some (File Garbage)"
  show "ledger (snd (run env clk fs)) \<noteq> Some (File (LedgerDoc db))"
  proof (cases "MAX_ACTIVATIONS env")
    case None
    with g show ?thesis by (simp add: run_no_max)
  next
    case (Some k)
    show ?thesis
    proof (cases "passes_validation env")
      case True
      with Some g show ?thesis
        by (simp add: run_validated load_licenses_def)
    next
      case False
      from run_rejected [OF Some False] obtain d msg where
        "run env clk fs = report env clk d False msg [] fs"
        by blast
      with g report_ledger [of env clk d False msg "[]" fs] show ?thesis
        by auto
    qed
  qed
next
  assume "ledger fs = None"
  then show "load_licenses clk fs =
            Inr \<lparr>version = ''1.0'', lastUpdated = t_db_created clk, licenses = []\<rparr>"
    by (simp add: load_licenses_def)
next
  assume "ledger fs \<noteq> None \<and> load_licenses clk fs = Inr db"
  then show "ledger fs = Some (File (LedgerDoc db))"
    by (auto simp: load_licenses_def split: option.splits node.splits content.splits)
qed

theorem corrupt_ledger_surfaced_witness:
  "passes_validation (request_for ''bob@y.org'' ''M-7'' [] ''req-2'' 2)
   \<and> ledger (checkout_with Garbage) = Some (File Garbage)
   \<and> run (request_for ''bob@y.org'' ''M-7'' [] ''req-2'' 2) clock0 (checkout_with Garbage) =
       (Raised JSONDecodeError, checkout_with Garbage)
   \<and> ledger (snd (run ((request_for ''bob@y.org'' ''M-7'' [] ''../licenses'' 2)
                          \<lparr>INPUT_MASTERKEY := ''0000-0000''\<rparr>) clock0 (checkout_with Garbage)))
       = Some (File (ResultDoc
           \<lparr>requestId = ''../licenses'', success = False,
            message = ''Invalid license key or email. Please verify and try again.'',
            activationToken = [], timestamp = ''2024-05-01T10:00:04+00:00''\<rparr>))
   \<and> ledger empty_checkout = None
   \<and> load_licenses clock0 empty_checkout =
       Inr \<lparr>version = ''1.0'', lastUpdated = ''2024-05-01T10:00:00+00:00'', licenses = []\<rparr>
   \<and> load_licenses clock0 (checkout_with (LedgerDoc alice_db)) = Inr alice_db"
proof -
  let ?good = "request_for ''bob@y.org'' ''M-7'' [] ''req-2'' 2"
  let ?bad = "(request_for ''bob@y.org'' ''M-7'' [] ''../licenses'' 2)
                \<lparr>INPUT_MASTERKEY := ''0000-0000''\<rparr>"
  have p: "passes_validation ?good"
    by (rule request_for_passes) (simp_all add: text_eval)
  have g: "ledger (checkout_with Garbage) = Some (File Garbage)"
    by (simp add: ledger_def checkout_with_def LICENSES_FILE_def)
  have reads: "MAX_ACTIVATIONS ?bad = Some 2" "email_env ?bad = ''bob@y.org''"
    "master_key ?bad = ''00000000''" "machine_id ?bad = ''M-7''"
    "request_id ?bad = ''../licenses''" "encryption_key ?bad = ''s3cret''"
    by (simp_all add: request_for_def email_env_def master_key_def machine_id_def
          request_id_def encryption_key_def replace_def text_eval)
  have "length (master_key ?bad) \<noteq> length (generate_master_key ''s3cret'' ''bob@y.org'')"
    by (simp add: reads length_generate_master_key)
  then have wrong: "master_key ?bad \<noteq> generate_master_key ''s3cret'' ''bob@y.org''"
    by auto
  have bad: "ledger (snd (run ?bad clock0 (checkout_with Garbage)))
       = Some (File (ResultDoc
           \<lparr>requestId = ''../licenses'', success = False,
            message = ''Invalid license key or email. Please verify and try again.'',
            activationToken = [], timestamp = ''2024-05-01T10:00:04+00:00''\<rparr>))"
    using wrong by (simp add: run_def reads fs_eval sample_defs)
  have e: "ledger empty_checkout = None"
    by (simp add: ledger_def empty_checkout_def LICENSES_FILE_def)
  have a: "ledger (checkout_with (LedgerDoc alice_db)) = Some (File (LedgerDoc alice_db))"
    by (simp add: ledger_def checkout_with_def LICENSES_FILE_def)
  have l: "load_licenses clock0 (checkout_with (LedgerDoc alice_db)) = Inr alice_db"
    by (simp add: load_licenses_def a)
  note c1 = corrupt_ledger_surfaced [of ?good 2 "checkout_with Garbage" clock0]
  note c2 = corrupt_ledger_surfaced [of ?bad 2 "checkout_with Garbage" clock0]
  note c3 = corrupt_ledger_surfaced [of ?good 2 empty_checkout clock0]
  note c4 = corrupt_ledger_surfaced
              [of ?good 2 "checkout_with (LedgerDoc alice_db)" clock0 alice_db]
  show ?thesis
    using c1 c2 c3 c4 p g bad e a l
    by (simp add: request_for_reads clock0_def)
qed

subsection \<open>C10: the read of the first activation\<close>

lemma report_no_IndexError: "fst (report env clk d succ msg token fs) \<noteq> Raised IndexError"
  using report_fst [of env clk d succ msg token fs] by auto

lemma activate_no_IndexError:
  "1 \<le> k \<Longrightarrow> fst (activate env clk k db fs) \<noteq> Raised IndexError"
  by (auto simp: activate_def Let_def report_no_IndexError
           dest: open_w_error split: prod.splits list.splits sum.splits)

text \<open>
  C10. With a limit of at least 1 no run ends in the \<^verbatim>\<open>IndexError\<close> of
  \<^verbatim>\<open>activations[0]\<close>: when the limit branch is taken the list is not empty. With a
  limit of 0 or less, a valid request for an e-mail address the database does not hold
  reaches that read with the empty list of the entry it has just created, and the run
  ends in \<^verbatim>\<open>IndexError\<close>.
\<close>

theorem first_activation_in_bounds:
  "(MAX_ACTIVATIONS env = Some k \<and> 1 \<le> k \<longrightarrow> fst (run env clk fs) \<noteq> Raised IndexError)
   \<and> (MAX_ACTIVATIONS env = Some k \<and> k \<le> 0 \<and> passes_validation env
        \<and> load_licenses clk fs = Inr db
        \<and> find_entry (licenses db) (email_env env) = None
      \<longrightarrow> run env clk fs = (Raised IndexError, fs))"
proof (intro conjI impI)
  assume a: "MAX_ACTIVATIONS env = Some k \<and> 1 \<le> k"
  show "fst (run env clk fs) \<noteq> Raised IndexError"
  proof (cases "passes_validation env")
    case False
    from a run_rejected [OF _ False] obtain d msg where
      "run env clk fs = report env clk d False msg [] fs"
      by blast
    then show ?thesis
      by (simp add: report_no_IndexError)
  next
    case True
    with a show ?thesis
      by (cases "load_licenses clk fs")
         (auto simp: run_validated activate_no_IndexError load_licenses_def
               split: option.splits node.splits content.splits)
  qed
next
  assume "MAX_ACTIVATIONS env = Some k \<and> k \<le> 0 \<and> passes_validation env
        \<and> load_licenses clk fs = Inr db
        \<and> find_entry (licenses db) (email_env env) = None"
  then show "run env clk fs = (Raised IndexError, fs)"
    by (simp add: run_validated activate_def find_or_create_def)
qed

theorem first_activation_in_bounds_witness:
  "fst (run (request_for '' Alice@X.com'' ''PC-2'' ''Alice desktop'' ''req-3'' 1) clock0
          (checkout_with (LedgerDoc alice_db))) \<noteq> Raised IndexError
   \<and> run (request_for '' Alice@X.com'' ''PC-1'' ''Alice laptop'' ''req-1'' 0) clock0
         empty_checkout =
       (Raised IndexError, empty_checkout)"
proof -
  let ?r0 = "request_for '' Alice@X.com'' ''PC-1'' ''Alice laptop'' ''req-1'' 0"
  have p: "passes_validation ?r0"
    by (rule request_for_passes) (simp_all add: text_eval)
  have "run ?r0 clock0 empty_checkout = (Raised IndexError, empty_checkout)"
    using first_activation_in_bounds
            [of ?r0 0 clock0 empty_checkout
                "\<lparr>version = ''1.0'', lastUpdated = t_db_created clock0, licenses = []\<rparr>"] p
    by (simp add: request_for_reads load_licenses_def ledger_def empty_checkout_def
          LICENSES_FILE_def)
  moreover have "fst (run (request_for '' Alice@X.com'' ''PC-2'' ''Alice desktop'' ''req-3'' 1)
                   clock0 (checkout_with (LedgerDoc alice_db))) \<noteq> Raised IndexError"
    using first_activation_in_bounds
            [of "request_for '' Alice@X.com'' ''PC-2'' ''Alice desktop'' ''req-3'' 1" 1 clock0
                "checkout_with (LedgerDoc alice_db)"]
    by (simp add: request_for_reads)
  ultimately show ?thesis by simp
qed

subsection \<open>The entry the search finds\<close>

lemma find_entry_first:
  assumes "\<forall>l\<in>set pre. email l \<noteq> e" and "email lic = e"
  shows "find_entry (pre @ lic # post) e = Some (length pre)"
  using assms by (induction pre) auto

lemma find_entry_none: "(\<forall>l\<in>set lics. email l \<noteq> e) \<Longrightarrow> find_entry lics e = None"
  by (induction lics) auto

subsection \<open>C6: which exits write the ledger\<close>

text \<open>
  Before it reports, a run that does not take the accepting path has written nothing:
  it ends in an exception with the file system as it was, or it is the result write,
  from the file system as it was.
\<close>

lemma rejected_unwritten:
  assumes "MAX_ACTIVATIONS env = Some k" and "\<not> passes_validation env"
  shows "\<exists>d msg. d \<in> {MissingFields, ServerMisconfigured, InvalidCredential}
           \<and> run env clk fs = report env clk d False msg [] fs"
  using assms by (rule run_rejected)

lemma activate_cases:
  "(\<exists>x. activate env clk k db fs = (Raised x, fs))
   \<or> (\<exists>d succ msg token. d \<noteq> Activated
         \<and> activate env clk k db fs = report env clk d succ msg token fs)
   \<or> (\<exists>msg token fs'. activate env clk k db fs = report env clk Activated True msg token fs')"
proof -
  obtain db1 i where fc: "find_or_create env clk db = (db1, i)"
    by (cases "find_or_create env clk db")
  let ?entry = "licenses db1 ! i"
  show ?thesis
  proof (cases "list_ex (\<lambda>act. machineId act = machine_id env) (activations ?entry)")
    case True
    with fc have "activate env clk k db fs =
        report env clk AlreadyActive True ''License is active on this computer.''
          (sha256_hex (email_env env @ ''|'' @ machine_id env @ ''|activated|''
                         @ encryption_key env)) fs"
      by (simp add: activate_def)
    then show ?thesis by blast
  next
    case False
    show ?thesis
    proof (cases "k \<le> int (length (activations ?entry))")
      case True
      show ?thesis
      proof (cases "activations ?entry")
        case Nil
        with fc False True have "activate env clk k db fs = (Raised IndexError, fs)"
          by (simp add: activate_def)
        then show ?thesis by blast
      next
        case (Cons act0 acts)
        let ?occ = "case machineName act0 of Some n \<Rightarrow> n | None \<Rightarrow> ''another computer''"
        from fc False True Cons have "activate env clk k db fs =
            report env clk (LimitReached ?occ) False (limit_message ?occ k) [] fs"
          by (simp add: activate_def Let_def)
        moreover have "LimitReached ?occ \<noteq> Activated" by simp
        ultimately show ?thesis by blast
      qed
    next
      case below: False
      let ?new = "\<lparr>machineId = machine_id env,
                   machineName = Some (if machine_name env \<noteq> [] then machine_name env
                                       else ''Unknown''),
                   activatedAt = t_activated clk\<rparr>"
      let ?db' = "db1\<lparr>licenses := (licenses db1)
                       [i := ?entry\<lparr>activations := activations ?entry @ [?new]\<rparr>],
                     lastUpdated := t_updated clk\<rparr>"
      show ?thesis
      proof (cases "open_w fs LICENSES_FILE (LedgerDoc ?db')")
        case (Inl e)
        with fc False below have "activate env clk k db fs = (Raised e, fs)"
          by (simp add: activate_def Let_def)
        then show ?thesis by blast
      next
        case (Inr fs')
        with fc False below have "activate env clk k db fs =
            report env clk Activated True ''License activated successfully!''
              (sha256_hex (email_env env @ ''|'' @ machine_id env @ ''|activated|''
                             @ encryption_key env)) fs'"
          by (simp add: activate_def Let_def)
        then show ?thesis by blast
      qed
    qed
  qed
qed

lemma not_activated_unwritten:
  assumes "fst (run env clk fs) = Exited d r" and "d \<noteq> Activated"
  shows "\<exists>succ msg token. run env clk fs = report env clk d succ msg token fs"
proof -
  from assms(1) obtain k where k: "MAX_ACTIVATIONS env = Some k"
    by (cases "MAX_ACTIVATIONS env") (auto simp: run_def)
  show ?thesis
  proof (cases "passes_validation env")
    case False
    from run_rejected [OF k False] obtain d' msg where
      r: "run env clk fs = report env clk d' False msg [] fs"
      by blast
    with assms(1) report_fst [of env clk d' False msg "[]" fs] have "d' = d"
      by auto
    with r show ?thesis by blast
  next
    case True
    with assms(1) k obtain db where a: "run env clk fs = activate env clk k db fs"
      by (cases "load_licenses clk fs") (auto simp: run_validated)
    from activate_cases [of env clk k db fs] show ?thesis
    proof (elim disjE exE conjE)
      fix x assume "activate env clk k db fs = (Raised x, fs)"
      with a assms(1) show ?thesis by simp
    next
      fix d' succ msg token
      assume r: "activate env clk k db fs = report env clk d' succ msg token fs"
      with a assms(1) report_fst [of env clk d' succ msg token fs] have "d' = d"
        by auto
      with a r show ?thesis by auto
    next
      fix msg token fs'
      assume "activate env clk k db fs = report env clk Activated True msg token fs'"
      with a assms report_fst [of env clk Activated True msg token fs'] show ?thesis
        by auto
    qed
  qed
qed

text \<open>
  So such a run leaves \<^verbatim>\<open>licenses.json\<close> as it was whenever the request id contains
  no slash: the result file is then a file of the directory \<^verbatim>\<open>results\<close>.
\<close>

lemma not_activated_keeps_ledger:
  assumes "fst (run env clk fs) = Exited d r" and "d \<noteq> Activated"
    and "CHR ''/'' \<notin> set (request_id env)"
  shows "ledger (snd (run env clk fs)) = ledger fs"
proof -
  from not_activated_unwritten [OF assms(1,2)] obtain succ msg token where
    "run env clk fs = report env clk d succ msg token fs"
    by blast
  with assms(3) show ?thesis
    by (simp add: report_keeps_ledger)
qed

text \<open>
  C6, at the failing input. The request has a wrong master key and the request id
  \<^verbatim>\<open>../licenses\<close>; the ledger holds two licenses. The run exits as InvalidCredential,
  and \<^verbatim>\<open>licenses.json\<close> then holds the result document instead of the database: the
  result path \<^verbatim>\<open>results/../licenses.json\<close> is the ledger itself.
\<close>

theorem rejection_overwrites_ledger:
  "ledger (checkout_with (LedgerDoc two_licenses)) = Some (File (LedgerDoc two_licenses))
   \<and> fst (run ((request_for ''alice@x.com'' ''PC-1'' ''Alice laptop'' ''../licenses'' 1)
                 \<lparr>INPUT_MASTERKEY := ''0000-0000''\<rparr>) clock0
            (checkout_with (LedgerDoc two_licenses))) =
       Exited InvalidCredential
         \<lparr>requestId = ''../licenses'', success = False,
          message = ''Invalid license key or email. Please verify and try again.'',
          activationToken = [], timestamp = ''2024-05-01T10:00:04+00:00''\<rparr>
   \<and> ledger (snd (run ((request_for ''alice@x.com'' ''PC-1'' ''Alice laptop'' ''../licenses'' 1)
                          \<lparr>INPUT_MASTERKEY := ''0000-0000''\<rparr>) clock0
                     (checkout_with (LedgerDoc two_licenses)))) =
       Some (File (ResultDoc
         \<lparr>requestId = ''../licenses'', success = False,
          message = ''Invalid license key or email. Please verify and try again.'',
          activationToken = [], timestamp = ''2024-05-01T10:00:04+00:00''\<rparr>))"
proof -
  let ?bad = "(request_for ''alice@x.com'' ''PC-1'' ''Alice laptop'' ''../licenses'' 1)
                \<lparr>INPUT_MASTERKEY := ''0000-0000''\<rparr>"
  have reads: "MAX_ACTIVATIONS ?bad = Some 1" "email_env ?bad = ''alice@x.com''"
    "master_key ?bad = ''00000000''" "machine_id ?bad = ''PC-1''"
    "request_id ?bad = ''../licenses''" "encryption_key ?bad = ''s3cret''"
    by (simp_all add: request_for_def email_env_def master_key_def machine_id_def
          request_id_def encryption_key_def replace_def text_eval)
  have "length (master_key ?bad) \<noteq> length (generate_master_key ''s3cret'' ''alice@x.com'')"
    by (simp add: reads length_generate_master_key)
  then have wrong: "master_key ?bad \<noteq> generate_master_key ''s3cret'' ''alice@x.com''"
    by auto
  then show ?thesis
    by (simp add: run_def reads fs_eval sample_defs)
qed

subsection \<open>C3: a repeated activation\<close>

text \<open>
  A valid request whose e-mail address has an entry that already records the machine
  reaches the already-active report with nothing written, whatever the limit; the
  token is that of the e-mail address and machine.
\<close>

lemma already_active_unwritten:
  assumes "MAX_ACTIVATIONS env = Some k" and "passes_validation env"
    and "ledger fs = Some (File (LedgerDoc db))"
    and "licenses db = pre @ lic # post"
    and "\<forall>l\<in>set pre. email l \<noteq> email_env env" and "email lic = email_env env"
    and "\<exists>act\<in>set (activations lic). machineId act = machine_id env"
  shows "run env clk fs =
           report env clk AlreadyActive True ''License is active on this computer.''
             (sha256_hex (email_env env @ ''|'' @ machine_id env @ ''|activated|''
                            @ encryption_key env)) fs"
proof -
  have "find_entry (licenses db) (email_env env) = Some (length pre)"
    unfolding assms(4) using assms(5,6) by (rule find_entry_first)
  moreover have "list_ex (\<lambda>act. machineId act = machine_id env) (activations lic)"
    using assms(7) by (simp add: list_ex_iff)
  ultimately show ?thesis
    using assms(1-4)
    by (simp add: run_validated load_licenses_def activate_def find_or_create_def)
qed

text \<open>
  C3, at the failing input. Alice's request for machine \<^verbatim>\<open>PC-1\<close>, which her entry
  records, comes with the request id \<^verbatim>\<open>../licenses\<close>. The run exits as AlreadyActive
  with the token, but \<^verbatim>\<open>licenses.json\<close> then holds the result document; the same
  request again ends in \<^verbatim>\<open>KeyError\<close> at \<^verbatim>\<open>db["licenses"]\<close>.
\<close>

theorem already_active_overwrites_ledger:
  "ledger (checkout_with (LedgerDoc two_licenses)) = Some (File (LedgerDoc two_licenses))
   \<and> fst (run (request_for '' Alice@X.com'' ''PC-1'' ''Alice laptop'' ''../licenses'' 1) clock0
            (checkout_with (LedgerDoc two_licenses))) =
       Exited AlreadyActive
         \<lparr>requestId = ''../licenses'', success = True,
          message = ''License is active on this computer.'',
          activationToken = sha256_hex ''alice@x.com|PC-1|activated|s3cret'',
          timestamp = ''2024-05-01T10:00:04+00:00''\<rparr>
   \<and> ledger (snd (run (request_for '' Alice@X.com'' ''PC-1'' ''Alice laptop'' ''../licenses'' 1)
                     clock0 (checkout_with (LedgerDoc two_licenses)))) =
       Some (File (ResultDoc
         \<lparr>requestId = ''../licenses'', success = True,
          message = ''License is active on this computer.'',
          activationToken = sha256_hex ''alice@x.com|PC-1|activated|s3cret'',
          timestamp = ''2024-05-01T10:00:04+00:00''\<rparr>))
   \<and> fst (run (request_for '' Alice@X.com'' ''PC-1'' ''Alice laptop'' ''../licenses'' 1) clock0
            (snd (run (request_for '' Alice@X.com'' ''PC-1'' ''Alice laptop'' ''../licenses'' 1)
                    clock0 (checkout_with (LedgerDoc two_licenses))))) =
       Raised KeyError"
proof -
  let ?req = "request_for '' Alice@X.com'' ''PC-1'' ''Alice laptop'' ''../licenses'' 1"
  have p: "passes_validation ?req"
    by (rule request_for_passes) (simp_all add: text_eval)
  then show ?thesis
    by (simp add: run_validated [where k = 1] request_for_reads activate_def
          find_or_create_def fs_eval sample_defs text_eval)
qed

subsection \<open>C7: the limit is reached\<close>

text \<open>
  A valid request whose e-mail address has an entry with at least one activation, none
  of them for the request's machine and at least as many as the limit, reaches the
  limit report with nothing written. The message names the \<^verbatim>\<open>machineName\<close> of the
  first activation of that entry, or \<^verbatim>\<open>another computer\<close> if it has none.
\<close>

lemma limit_reached_unwritten:
  assumes "MAX_ACTIVATIONS env = Some k" and "passes_validation env"
    and "ledger fs = Some (File (LedgerDoc db))"
    and "licenses db = pre @ lic # post"
    and "\<forall>l\<in>set pre. email l \<noteq> email_env env" and "email lic = email_env env"
    and "activations lic = act0 # acts"
    and "\<forall>act\<in>set (activations lic). machineId act \<noteq> machine_id env"
    and "k \<le> int (length (activations lic))"
  shows "run env clk fs =
           report env clk
             (LimitReached (case machineName act0 of Some n \<Rightarrow> n | None \<Rightarrow> ''another computer''))
             False
             (''This license is already activated on '' @ [CHR 0x22]
              @ (case machineName act0 of Some n \<Rightarrow> n | None \<Rightarrow> ''another computer'')
              @ [CHR 0x22] @ ''. Maximum allowed: '' @ str_int k
              @ '' computer(s). Contact support to transfer your license.'')
             [] fs"
proof -
  have "find_entry (licenses db) (email_env env) = Some (length pre)"
    unfolding assms(4) using assms(5,6) by (rule find_entry_first)
  moreover have "\<not> list_ex (\<lambda>act. machineId act = machine_id env) (activations lic)"
    using assms(8) by (simp add: list_ex_iff)
  ultimately show ?thesis
    using assms(1-4,7,9)
    by (simp add: run_validated load_licenses_def activate_def find_or_create_def
          limit_message_def Let_def)
qed

text \<open>
  C7, at the failing inputs. Alice's license is active on \<^verbatim>\<open>PC-1\<close>, the limit is 1,
  and her request is for \<^verbatim>\<open>PC-2\<close>. With the request id \<^verbatim>\<open>../licenses\<close> the run exits
  as LimitReached, naming Alice's laptop, but \<^verbatim>\<open>licenses.json\<close> then holds the result
  document instead of the database. With the request id \<^verbatim>\<open>a/b\<close> the result file
  cannot be opened, and the run ends in an \<open>OSError\<close> instead of a LimitReached result.
\<close>

theorem limit_reached_overwrites_ledger:
  "ledger (checkout_with (LedgerDoc two_licenses)) = Some (File (LedgerDoc two_licenses))
   \<and> fst (run (request_for '' Alice@X.com'' ''PC-2'' ''Alice desktop'' ''../licenses'' 1) clock0
            (checkout_with (LedgerDoc two_licenses))) =
       Exited (LimitReached ''Alice laptop'')
         \<lparr>requestId = ''../licenses'', success = False,
          message =
            ''This license is already activated on '' @ [CHR 0x22] @ ''Alice laptop''
            @ [CHR 0x22] @ ''. Maximum allowed: 1 computer(s). ''
            @ ''Contact support to transfer your license.'',
          activationToken = [], timestamp = ''2024-05-01T10:00:04+00:00''\<rparr>
   \<and> ledger (snd (run (request_for '' Alice@X.com'' ''PC-2'' ''Alice desktop'' ''../licenses'' 1)
                     clock0 (checkout_with (LedgerDoc two_licenses)))) =
       Some (File (ResultDoc
         \<lparr>requestId = ''../licenses'', success = False,
          message =
            ''This license is already activated on '' @ [CHR 0x22] @ ''Alice laptop''
            @ [CHR 0x22] @ ''. Maximum allowed: 1 computer(s). ''
            @ ''Contact support to transfer your license.'',
          activationToken = [], timestamp = ''2024-05-01T10:00:04+00:00''\<rparr>))
   \<and> fst (run (request_for '' Alice@X.com'' ''PC-2'' ''Alice desktop'' ''a/b'' 1) clock0
            (checkout_with (LedgerDoc two_licenses))) =
       Raised OSError"
proof -
  have p1: "passes_validation
              (request_for '' Alice@X.com'' ''PC-2'' ''Alice desktop'' ''../licenses'' 1)"
    by (rule request_for_passes) (simp_all add: text_eval)
  have p2: "passes_validation (request_for '' Alice@X.com'' ''PC-2'' ''Alice desktop'' ''a/b'' 1)"
    by (rule request_for_passes) (simp_all add: text_eval)
  from p1 p2 show ?thesis
    by (simp add: run_validated [where k = 1] request_for_reads activate_def
          find_or_create_def fs_eval sample_defs text_eval limit_message_def str_int_def
          str_nat.simps)
qed

subsection \<open>The exits of the activation stage\<close>

lemma report_Exited:
  assumes "report env clk d succ msg token fs = (Exited d' r, fs')"
  shows "d' = d"
    and "r = \<lparr>requestId = request_id env, success = succ, message = msg,
               activationToken = token, timestamp = t_result clk\<rparr>"
proof -
  from assms have "fst (report env clk d succ msg token fs) = Exited d' r"
    by simp
  with report_fst [of env clk d succ msg token fs]
  have "Exited d' r = Exited d \<lparr>requestId = request_id env, success = succ, message = msg,
               activationToken = token, timestamp = t_result clk\<rparr>"
    by auto
  then show "d' = d"
    and "r = \<lparr>requestId = request_id env, success = succ, message = msg,
               activationToken = token, timestamp = t_result clk\<rparr>"
    by simp_all
qed

lemma activate_outcomes:
  "(\<exists>x. activate env clk k db fs = (Raised x, fs))
   \<or> activate env clk k db fs =
       report env clk AlreadyActive True ''License is active on this computer.''
         (sha256_hex (email_env env @ ''|'' @ machine_id env @ ''|activated|''
                        @ encryption_key env)) fs
   \<or> (\<exists>occ. activate env clk k db fs =
         report env clk (LimitReached occ) False (limit_message occ k) [] fs)
   \<or> (\<exists>fs'. activate env clk k db fs =
         report env clk Activated True ''License activated successfully!''
           (sha256_hex (email_env env @ ''|'' @ machine_id env @ ''|activated|''
                          @ encryption_key env)) fs')"
proof -
  obtain db1 i where fc: "find_or_create env clk db = (db1, i)"
    by (cases "find_or_create env clk db")
  let ?entry = "licenses db1 ! i"
  show ?thesis
  proof (cases "list_ex (\<lambda>act. machineId act = machine_id env) (activations ?entry)")
    case True
    with fc show ?thesis
      by (simp add: activate_def)
  next
    case False
    show ?thesis
    proof (cases "k \<le> int (length (activations ?entry))")
      case True
      show ?thesis
      proof (cases "activations ?entry")
        case Nil
        with fc False True have "activate env clk k db fs = (Raised IndexError, fs)"
          by (simp add: activate_def)
        then show ?thesis by blast
      next
        case (Cons act0 acts)
        let ?occ = "case machineName act0 of Some n \<Rightarrow> n | None \<Rightarrow> ''another computer''"
        from fc False True Cons have "activate env clk k db fs =
            report env clk (LimitReached ?occ) False (limit_message ?occ k) [] fs"
          by (simp add: activate_def Let_def)
        then show ?thesis by blast
      qed
    next
      case below: False
      let ?new = "\<lparr>machineId = machine_id env,
                   machineName = Some (if machine_name env \<noteq> [] then machine_name env
                                       else ''Unknown''),
                   activatedAt = t_activated clk\<rparr>"
      let ?db' = "db1\<lparr>licenses := (licenses db1)
                       [i := ?entry\<lparr>activations := activations ?entry @ [?new]\<rparr>],
                     lastUpdated := t_updated clk\<rparr>"
      show ?thesis
      proof (cases "open_w fs LICENSES_FILE (LedgerDoc ?db')")
        case (Inl e)
        with fc False below have "activate env clk k db fs = (Raised e, fs)"
          by (simp add: activate_def Let_def)
        then show ?thesis by blast
      next
        case (Inr fs')
        with fc False below have "activate env clk k db fs =
            report env clk Activated True ''License activated successfully!''
              (sha256_hex (email_env env @ ''|'' @ machine_id env @ ''|activated|''
                             @ encryption_key env)) fs'"
          by (simp add: activate_def Let_def)
        then show ?thesis by blast
      qed
    qed
  qed
qed

lemma activate_Exited:
  assumes "activate env clk k db fs = (Exited d r, fs')"
  shows "(d = AlreadyActive \<or> (\<exists>occ. d = LimitReached occ) \<or> d = Activated)
         \<and> (d = Activated \<or> d = AlreadyActive \<longrightarrow>
              activationToken r =
                sha256_hex (email_env env @ ''|'' @ machine_id env @ ''|activated|''
                              @ encryption_key env))"
proof -
  let ?token = "sha256_hex (email_env env @ ''|'' @ machine_id env @ ''|activated|''
                              @ encryption_key env)"
  consider (raised) x where "activate env clk k db fs = (Raised x, fs)"
    | (already) "activate env clk k db fs =
        report env clk AlreadyActive True ''License is active on this computer.'' ?token fs"
    | (limit) occ where "activate env clk k db fs =
        report env clk (LimitReached occ) False (limit_message occ k) [] fs"
    | (activated) fs1 where "activate env clk k db fs =
        report env clk Activated True ''License activated successfully!'' ?token fs1"
    using activate_outcomes [of env clk k db fs] by blast
  then show ?thesis
  proof cases
    case raised
    with assms show ?thesis by simp
  next
    case already
    with assms have "report env clk AlreadyActive True ''License is active on this computer.''
                       ?token fs = (Exited d r, fs')"
      by simp
    from report_Exited [OF this] show ?thesis by simp
  next
    case limit
    with assms have "report env clk (LimitReached occ) False (limit_message occ k) [] fs
                       = (Exited d r, fs')"
      by simp
    from report_Exited [OF this] show ?thesis by simp
  next
    case activated
    with assms have "report env clk Activated True ''License activated successfully!''
                       ?token fs1 = (Exited d r, fs')"
      by simp
    from report_Exited [OF this] show ?thesis by simp
  qed
qed

subsection \<open>C4: key derivation and verification\<close>

lemma activate_not_InvalidCredential:
  "fst (activate env clk k db fs) \<noteq> Exited InvalidCredential r"
proof
  assume "fst (activate env clk k db fs) = Exited InvalidCredential r"
  then have "activate env clk k db fs = (Exited InvalidCredential r, snd (activate env clk k db fs))"
    by (simp add: prod_eq_iff)
  from activate_Exited [OF this] show False by auto
qed

text \<open>
  C4. \<^verbatim>\<open>generate_master_key\<close> computes the key of the KeyDeriver contract: 16
  characters, all of them digits or the capitals A to F, hence no separators. For a
  request whose required fields and secret are present, the script accepts the key at
  PASO 1 exactly when the KeyDeriver verification of the submitted key against the
  trimmed and lowercased e-mail address succeeds: if it does, the run goes on to load
  the ledger and never exits as InvalidCredential; if it does not, the run is the
  InvalidCredential report, made before the ledger is read.
\<close>

theorem key_derivation_contract:
  "generate_master_key sharedSecret e = KeyDeriver_derive e sharedSecret
   \<and> length (generate_master_key sharedSecret e) = 16
   \<and> set (generate_master_key sharedSecret e) \<subseteq> set ''0123456789ABCDEF''
   \<and> (MAX_ACTIVATIONS env = Some k \<and> email_env env \<noteq> [] \<and> master_key env \<noteq> []
        \<and> machine_id env \<noteq> [] \<and> request_id env \<noteq> [] \<and> encryption_key env \<noteq> []
      \<longrightarrow> (KeyDeriver_verify (INPUT_MASTERKEY env) (lower (strip (INPUT_EMAIL env)))
               (ENCRYPTION_KEY env)
             \<longrightarrow> run env clk fs =
                   (case load_licenses clk fs of
                      Inl x \<Rightarrow> (Raised x, fs)
                    | Inr db \<Rightarrow> activate env clk k db fs)
                 \<and> (\<forall>r. fst (run env clk fs) \<noteq> Exited InvalidCredential r))
          \<and> (\<not> KeyDeriver_verify (INPUT_MASTERKEY env) (lower (strip (INPUT_EMAIL env)))
                 (ENCRYPTION_KEY env)
             \<longrightarrow> run env clk fs =
                   report env clk InvalidCredential False
                     ''Invalid license key or email. Please verify and try again.'' [] fs))"
proof (intro conjI impI allI)
  show "generate_master_key sharedSecret e = KeyDeriver_derive e sharedSecret"
    by (simp add: generate_master_key_def KeyDeriver_derive_def)
  show "length (generate_master_key sharedSecret e) = 16"
    by (rule length_generate_master_key)
  show "set (generate_master_key sharedSecret e) \<subseteq> set ''0123456789ABCDEF''"
    by (rule set_generate_master_key)
next
  assume pre: "MAX_ACTIVATIONS env = Some k \<and> email_env env \<noteq> [] \<and> master_key env \<noteq> []
        \<and> machine_id env \<noteq> [] \<and> request_id env \<noteq> [] \<and> encryption_key env \<noteq> []"
    and v: "KeyDeriver_verify (INPUT_MASTERKEY env) (lower (strip (INPUT_EMAIL env)))
              (ENCRYPTION_KEY env)"
  from v have "master_key env = generate_master_key (encryption_key env) (email_env env)"
    by (simp add: KeyDeriver_verify_def KeyDeriver_derive_def generate_master_key_def
          master_key_def email_env_def encryption_key_def)
  with pre have "passes_validation env"
    by (simp add: passes_validation_def)
  with pre show "run env clk fs =
                   (case load_licenses clk fs of
                      Inl x \<Rightarrow> (Raised x, fs)
                    | Inr db \<Rightarrow> activate env clk k db fs)"
    by (simp add: run_validated)
next
  fix r
  assume pre: "MAX_ACTIVATIONS env = Some k \<and> email_env env \<noteq> [] \<and> master_key env \<noteq> []
        \<and> machine_id env \<noteq> [] \<and> request_id env \<noteq> [] \<and> encryption_key env \<noteq> []"
    and v: "KeyDeriver_verify (INPUT_MASTERKEY env) (lower (strip (INPUT_EMAIL env)))
              (ENCRYPTION_KEY env)"
  from v have "master_key env = generate_master_key (encryption_key env) (email_env env)"
    by (simp add: KeyDeriver_verify_def KeyDeriver_derive_def generate_master_key_def
          master_key_def email_env_def encryption_key_def)
  with pre have "passes_validation env"
    by (simp add: passes_validation_def)
  with pre show "fst (run env clk fs) \<noteq> Exited InvalidCredential r"
    by (cases "load_licenses clk fs")
       (simp_all add: run_validated activate_not_InvalidCredential)
next
  assume pre: "MAX_ACTIVATIONS env = Some k \<and> email_env env \<noteq> [] \<and> master_key env \<noteq> []
        \<and> machine_id env \<noteq> [] \<and> request_id env \<noteq> [] \<and> encryption_key env \<noteq> []"
    and v: "\<not> KeyDeriver_verify (INPUT_MASTERKEY env) (lower (strip (INPUT_EMAIL env)))
              (ENCRYPTION_KEY env)"
  from v have "master_key env \<noteq> generate_master_key (encryption_key env) (email_env env)"
    by (simp add: KeyDeriver_verify_def KeyDeriver_derive_def generate_master_key_def
          master_key_def email_env_def encryption_key_def)
  with pre show "run env clk fs =
                   report env clk InvalidCredential False
                     ''Invalid license key or email. Please verify and try again.'' [] fs"
    by (simp add: run_def)
qed

theorem key_derivation_contract_witness:
  "KeyDeriver_verify (generate_master_key ''s3cret'' ''alice@x.com'') ''alice@x.com'' ''s3cret''
   \<and> fst (run (request_for '' Alice@X.com'' ''PC-1'' ''Alice laptop'' ''req-1'' 1) clock0
            empty_checkout) =
       Exited Activated
         \<lparr>requestId = ''req-1'', success = True, message = ''License activated successfully!'',
          activationToken = sha256_hex ''alice@x.com|PC-1|activated|s3cret'',
          timestamp = ''2024-05-01T10:00:04+00:00''\<rparr>
   \<and> \<not> KeyDeriver_verify ''0000-0000'' ''alice@x.com'' ''s3cret''
   \<and> fst (run ((request_for '' Alice@X.com'' ''PC-1'' ''Alice laptop'' ''req-1'' 1)
                 \<lparr>INPUT_MASTERKEY := ''0000-0000''\<rparr>) clock0 empty_checkout) =
       Exited InvalidCredential
         \<lparr>requestId = ''req-1'', success = False,
          message = ''Invalid license key or email. Please verify and try again.'',
          activationToken = [], timestamp = ''2024-05-01T10:00:04+00:00''\<rparr>"
proof -
  let ?good = "request_for '' Alice@X.com'' ''PC-1'' ''Alice laptop'' ''req-1'' 1"
  let ?bad = "?good\<lparr>INPUT_MASTERKEY := ''0000-0000''\<rparr>"
  have good: "MAX_ACTIVATIONS ?good = Some 1" "email_env ?good = ''alice@x.com''"
    "master_key ?good = generate_master_key ''s3cret'' ''alice@x.com''"
    "machine_id ?good = ''PC-1''" "request_id ?good = ''req-1''"
    "encryption_key ?good = ''s3cret''"
    by (simp_all add: request_for_reads text_eval)
  have bad: "MAX_ACTIVATIONS ?bad = Some 1" "email_env ?bad = ''alice@x.com''"
    "master_key ?bad = ''00000000''" "machine_id ?bad = ''PC-1''" "request_id ?bad = ''req-1''"
    "encryption_key ?bad = ''s3cret''"
    by (simp_all add: request_for_def email_env_def master_key_def machine_id_def
          request_id_def encryption_key_def replace_def text_eval)
  have fields: "INPUT_MASTERKEY ?good = generate_master_key ''s3cret'' ''alice@x.com''"
    "lower (strip (INPUT_EMAIL ?good)) = ''alice@x.com''" "ENCRYPTION_KEY ?good = ''s3cret''"
    "INPUT_MASTERKEY ?bad = ''0000-0000''"
    "lower (strip (INPUT_EMAIL ?bad)) = ''alice@x.com''" "ENCRYPTION_KEY ?bad = ''s3cret''"
    by (simp_all add: request_for_def text_eval)
  have der: "KeyDeriver_derive ''alice@x.com'' ''s3cret''
               = generate_master_key ''s3cret'' ''alice@x.com''"
    by (simp add: generate_master_key_def KeyDeriver_derive_def)
  have yes: "KeyDeriver_verify (generate_master_key ''s3cret'' ''alice@x.com'') ''alice@x.com''
               ''s3cret''"
    by (simp add: KeyDeriver_verify_def der normalize_generate_master_key)
  have "length (replace CHR ''-'' [] (upper (strip ''0000-0000''))) \<noteq>
        length (KeyDeriver_derive ''alice@x.com'' ''s3cret'')"
    by (simp add: der length_generate_master_key replace_def text_eval)
  then have no: "\<not> KeyDeriver_verify ''0000-0000'' ''alice@x.com'' ''s3cret''"
    unfolding KeyDeriver_verify_def by metis
  have pre_bad: "MAX_ACTIVATIONS ?bad = Some 1 \<and> email_env ?bad \<noteq> []
      \<and> master_key ?bad \<noteq> [] \<and> machine_id ?bad \<noteq> [] \<and> request_id ?bad \<noteq> []
      \<and> encryption_key ?bad \<noteq> []"
    by (simp add: bad)
  have no': "\<not> KeyDeriver_verify (INPUT_MASTERKEY ?bad) (lower (strip (INPUT_EMAIL ?bad)))
               (ENCRYPTION_KEY ?bad)"
    using no by (simp only: fields) simp
  have "run ?bad clock0 empty_checkout =
          report ?bad clock0 InvalidCredential False
            ''Invalid license key or email. Please verify and try again.'' [] empty_checkout"
    using key_derivation_contract
            [of "''s3cret''" "''alice@x.com''" ?bad 1 clock0 empty_checkout]
      pre_bad no' by blast
  then have rejected: "fst (run ?bad clock0 empty_checkout) =
       Exited InvalidCredential
         \<lparr>requestId = ''req-1'', success = False,
          message = ''Invalid license key or email. Please verify and try again.'',
          activationToken = [], timestamp = ''2024-05-01T10:00:04+00:00''\<rparr>"
    by (simp add: bad fs_eval sample_defs)
  show ?thesis
    using yes no rejected run_alice_fresh(1) by simp
qed

subsection \<open>C5: the activation token\<close>





end
